theory Spec2Isabelle
  imports Complex_Main "HOL-Library.Word" "HOL-Library.Multiset"
begin

section \<open>Data model of the simulator (src/sim/simulator: SimulationState, SimulationConfig)\<close>

text \<open>
  JavaScript numbers are modelled as real numbers: the arithmetic of the source is read
  exactly, and IEEE rounding, overflow and the non-finite values are outside the model,
  except where a definition says otherwise (the tolerance test of \<open>updateSplits\<close> is
  evaluated in double arithmetic). A \<open>Date\<close> is modelled by its UTC calendar
  fields, and the two calls of \<open>Math.random()\<close> and the clock reading \<open>new Date()\<close> that
  a method makes are parameters of its model.
\<close>

record Bounds =
  lower :: real
  upper :: real

record Splits =
  part1 :: real
  part2 :: real

record SimulationState =
  currentValue :: real
  target :: real
  bounds :: Bounds
  splits :: Splits
  isRunning :: bool
  runId :: string

record SimulationConfig =
  updateFrequencyMs :: real
  volatility :: real
  meanReversionRate :: real
  bandWidth :: real

text \<open>The \<open>Partial<SimulationConfig>\<close> argument of the constructor: every key optional.\<close>

record PartialConfig =
  p_updateFrequencyMs :: "real option"
  p_volatility :: "real option"
  p_meanReversionRate :: "real option"
  p_bandWidth :: "real option"

record Simulator =
  state :: SimulationState
  config :: SimulationConfig

text \<open>The UTC fields of a JavaScript \<open>Date\<close> (years before 0 are not modelled).\<close>

record js_date =
  year :: nat
  month :: nat
  day :: nat
  hours :: nat
  minutes :: nat
  seconds :: nat
  milliseconds :: nat

text \<open>
  \<open>SimulatorTickResult\<close>. Its \<open>target\<close> and \<open>bounds\<close> keys are named \<open>tick_target\<close> and
  \<open>tick_bounds\<close> here, apart from the fields of the state. \<open>pct_from_target\<close> is \<open>None\<close>
  when the division by the target is a division by zero, where JavaScript yields \<open>NaN\<close> or
  an infinity.
\<close>

record SimulatorTickResult =
  timestamp :: string
  total_value :: real
  part1_value :: real
  part2_value :: real
  tick_target :: real
  tick_bounds :: Bounds
  pct_from_target :: "real option"

datatype js_error = Error string

section \<open>Date.prototype.toISOString\<close>

definition digit :: "nat \<Rightarrow> char" where
  "digit n = ''0123456789'' ! (n mod 10)"

text \<open>\<open>pad k n\<close>: the last \<open>k\<close> decimal digits of \<open>n\<close>, zero-padded on the left.\<close>

fun pad :: "nat \<Rightarrow> nat \<Rightarrow> string" where
  "pad 0 n = []"
| "pad (Suc k) n = pad k (n div 10) @ [digit n]"

text \<open>
  \<open>YYYY-MM-DDTHH:mm:ss.sssZ\<close>; a year beyond 9999 is written in the expanded form, a sign
  and six digits.
\<close>

definition toISOString :: "js_date \<Rightarrow> string" where
  "toISOString d =
     (if year d \<le> 9999 then pad 4 (year d) else CHR ''+'' # pad 6 (year d))
     @ ''-'' @ pad 2 (month d) @ ''-'' @ pad 2 (day d)
     @ ''T'' @ pad 2 (hours d) @ '':'' @ pad 2 (minutes d) @ '':'' @ pad 2 (seconds d)
     @ ''.'' @ pad 3 (milliseconds d) @ ''Z''"

section \<open>Double arithmetic\<close>

text \<open>
  The result of an operation on doubles is the exact result rounded to the nearest
  double, a tie going to the even significand. A double has 53 significant bits and a
  least exponent of -1022, below which the spacing stays \<open>2^-1074\<close>. \<open>round_even\<close> rounds to
  the nearest integer, \<open>ulp_exp x\<close> is the exponent of the spacing of the doubles around
  \<open>x\<close>, and \<open>fl x\<close> is the double nearest to \<open>x\<close>. Overflow is not modelled: beyond the largest
  double, where JavaScript has an infinity, \<open>fl\<close> keeps a finite number.
\<close>

definition round_even :: "real \<Rightarrow> int" where
  "round_even m =
     (let f = \<lfloor>m\<rfloor> in
      if m - of_int f < 1 / 2 then f
      else if m - of_int f > 1 / 2 then f + 1
      else if even f then f else f + 1)"

definition ulp_exp :: "real \<Rightarrow> int" where
  "ulp_exp x = max \<lfloor>log 2 \<bar>x\<bar>\<rfloor> (- 1022) - 52"

definition fl :: "real \<Rightarrow> real" where
  "fl x = (if x = 0 then 0 else of_int (round_even (x / 2 powi ulp_exp x)) * 2 powi ulp_exp x)"

section \<open>The Simulator class\<close>

definition updateBounds :: "Simulator \<Rightarrow> Simulator" where
  "updateBounds sim =
     sim\<lparr>state := (state sim)\<lparr>bounds :=
       \<lparr>lower = target (state sim) * (1 - bandWidth (config sim)),
        upper = target (state sim) * (1 + bandWidth (config sim))\<rparr>\<rparr>\<rparr>"

definition constructor :: "SimulationState \<Rightarrow> PartialConfig \<Rightarrow> Simulator" where
  "constructor initialState cfg =
     updateBounds
       \<lparr>state = initialState,
        config =
          \<lparr>updateFrequencyMs = (case p_updateFrequencyMs cfg of None \<Rightarrow> 1000 | Some v \<Rightarrow> v),
           volatility = (case p_volatility cfg of None \<Rightarrow> 0.02 | Some v \<Rightarrow> v),
           meanReversionRate = (case p_meanReversionRate cfg of None \<Rightarrow> 0.1 | Some v \<Rightarrow> v),
           bandWidth = (case p_bandWidth cfg of None \<Rightarrow> 0.05 | Some v \<Rightarrow> v)\<rparr>\<rparr>"

definition reflect :: "real \<Rightarrow> real \<Rightarrow> real \<Rightarrow> real" where
  "reflect v lo hi =
     (if v < lo then lo + (lo - v)
      else if v > hi then hi - (v - hi)
      else v)"

definition calculateDrift :: "Simulator \<Rightarrow> real \<Rightarrow> real \<Rightarrow> real" where
  "calculateDrift sim current tgt = meanReversionRate (config sim) * (tgt - current)"

text \<open>
  The Box-Muller transform; \<open>u1\<close> and \<open>u2\<close> are the two results of \<open>Math.random()\<close>, each
  in \<open>[0, 1)\<close>. At \<open>u1 = 0\<close> JavaScript computes with \<open>Math.log(0) = -Infinity\<close> and the
  noise is not finite: that draw is outside this model.
\<close>

definition addNoise :: "real \<Rightarrow> real \<Rightarrow> real \<Rightarrow> real" where
  "addNoise vol u1 u2 =
     (let z0 = sqrt (- 2 * ln u1) * cos (2 * pi * u2) in z0 * vol)"

definition getCurrentTickData :: "Simulator \<Rightarrow> js_date \<Rightarrow> SimulatorTickResult" where
  "getCurrentTickData sim now =
     (let totalValue = currentValue (state sim);
          part1Value = totalValue * part1 (splits (state sim));
          part2Value = totalValue * part2 (splits (state sim));
          pctFromTarget =
            (if target (state sim) = 0 then None
             else Some (((totalValue - target (state sim)) / target (state sim)) * 100))
      in \<lparr>timestamp = toISOString now,
          total_value = totalValue,
          part1_value = part1Value,
          part2_value = part2Value,
          tick_target = target (state sim),
          tick_bounds = bounds (state sim),
          pct_from_target = pctFromTarget\<rparr>)"

text \<open>
  \<open>generateTick\<close> returns the tick and the simulator after the call. \<open>now\<close> is the clock
  read by \<open>getCurrentTickData\<close>; a paused call draws no random number.
\<close>

definition generateTick ::
  "Simulator \<Rightarrow> js_date \<Rightarrow> real \<Rightarrow> real \<Rightarrow> SimulatorTickResult \<times> Simulator" where
  "generateTick sim now u1 u2 =
     (if \<not> isRunning (state sim) then (getCurrentTickData sim now, sim)
      else
        let drift = calculateDrift sim (currentValue (state sim)) (target (state sim));
            noise = addNoise (volatility (config sim)) u1 u2;
            newValue = currentValue (state sim) + drift + noise;
            newValue = reflect newValue (lower (bounds (state sim))) (upper (bounds (state sim)));
            sim' = sim\<lparr>state := (state sim)\<lparr>currentValue := newValue\<rparr>\<rparr>
        in (getCurrentTickData sim' now, sim'))"

definition start :: "Simulator \<Rightarrow> Simulator" where
  "start sim = sim\<lparr>state := (state sim)\<lparr>isRunning := True\<rparr>\<rparr>"

definition pause :: "Simulator \<Rightarrow> Simulator" where
  "pause sim = sim\<lparr>state := (state sim)\<lparr>isRunning := False\<rparr>\<rparr>"

definition resume :: "Simulator \<Rightarrow> Simulator" where
  "resume sim = sim\<lparr>state := (state sim)\<lparr>isRunning := True\<rparr>\<rparr>"

text \<open>
  \<open>reset(newRunId?)\<close>: \<open>None\<close> is the omitted argument. The test \<open>if (newRunId)\<close> is
  JavaScript truthiness, which the empty string fails as \<open>undefined\<close> does.
\<close>

definition truthy :: "string option \<Rightarrow> bool" where
  "truthy a = (case a of None \<Rightarrow> False | Some s \<Rightarrow> s \<noteq> [])"

definition reset :: "Simulator \<Rightarrow> string option \<Rightarrow> Simulator" where
  "reset sim newRunId =
     (let st = (state sim)\<lparr>currentValue := target (state sim)\<rparr>;
          st = st\<lparr>isRunning := True\<rparr>;
          st = (if truthy newRunId then st\<lparr>runId := the newRunId\<rparr> else st)
      in sim\<lparr>state := st\<rparr>)"

definition updateTarget :: "Simulator \<Rightarrow> real \<Rightarrow> Simulator" where
  "updateTarget sim newTarget = updateBounds (sim\<lparr>state := (state sim)\<lparr>target := newTarget\<rparr>\<rparr>)"

text \<open>
  \<open>updateSplits\<close> returns the exception thrown, if any, and the simulator after the call:
  the \<open>throw\<close> comes before the assignment, so a failed call leaves the object as it was.
  The test \<open>Math.abs(part1 + part2 - 1) > 0.0001\<close> is evaluated as the source evaluates it,
  in double arithmetic: the sum and the difference are each rounded, \<open>Math.abs\<close> is exact,
  and the literal \<open>0.0001\<close> is the double nearest to 1/10000. (A sum that overflows is an
  infinity in JavaScript and a large number here; the test succeeds on both.)
\<close>

definition updateSplits :: "Simulator \<Rightarrow> real \<Rightarrow> real \<Rightarrow> js_error option \<times> Simulator" where
  "updateSplits sim p1 p2 =
     (if \<bar>fl (fl (p1 + p2) - 1)\<bar> > fl 0.0001
      then (Some (Error ''Portfolio splits must sum to 1''), sim)
      else (None, sim\<lparr>state := (state sim)\<lparr>splits := \<lparr>part1 = p1, part2 = p2\<rparr>\<rparr>\<rparr>))"

text \<open>
  The simulation loop of the stream endpoint calls \<open>generateTick\<close> once per period;
  \<open>generateTicks\<close> is that sequence of calls, each with its clock reading and draws.
\<close>

fun generateTicks ::
  "Simulator \<Rightarrow> (js_date \<times> real \<times> real) list \<Rightarrow> SimulatorTickResult list \<times> Simulator" where
  "generateTicks sim [] = ([], sim)"
| "generateTicks sim ((now, u1, u2) # calls) =
     (let (t, sim') = generateTick sim now u1 u2;
          (ts, sim'') = generateTicks sim' calls
      in (t # ts, sim''))"

section \<open>The stream endpoint (api/stream.ts): formatTickForStream\<close>

text \<open>
  \<open>Number(x.toFixed(d))\<close>, the number read back from the decimal string. \<open>toFixed\<close> writes
  the sign, then the integer \<open>n\<close> for which \<open>n / 10^d\<close> is nearest to \<open>\<bar>x\<bar>\<close>, the larger one
  on a tie; from \<open>10^21\<close> on it writes the number as \<open>String(x)\<close> does, which reads back as \<open>x\<close>.
\<close>

definition Number_toFixed :: "real \<Rightarrow> nat \<Rightarrow> real" where
  "Number_toFixed x d =
     (if \<bar>x\<bar> \<ge> 10 ^ 21 then x
      else sgn x * of_int \<lfloor>\<bar>x\<bar> * 10 ^ d + 1 / 2\<rfloor> / 10 ^ d)"

record StreamTick =
  s_timestamp :: string
  s_total_value :: real
  s_part1_value :: real
  s_part2_value :: real
  s_target :: real
  s_bounds :: Bounds
  s_pct_from_target :: "real option"
  client_count :: nat

text \<open>\<open>clients\<close> is \<open>connectedClients.size\<close>. A non-finite percentage stays non-finite.\<close>

definition formatTickForStream :: "SimulatorTickResult \<Rightarrow> nat \<Rightarrow> StreamTick" where
  "formatTickForStream tickResult clients =
     \<lparr>s_timestamp = timestamp tickResult,
      s_total_value = Number_toFixed (total_value tickResult) 8,
      s_part1_value = Number_toFixed (part1_value tickResult) 8,
      s_part2_value = Number_toFixed (part2_value tickResult) 8,
      s_target = Number_toFixed (tick_target tickResult) 8,
      s_bounds =
        \<lparr>lower = Number_toFixed (lower (tick_bounds tickResult)) 8,
         upper = Number_toFixed (upper (tick_bounds tickResult)) 8\<rparr>,
      s_pct_from_target = map_option (\<lambda>p. Number_toFixed p 4) (pct_from_target tickResult),
      client_count = clients\<rparr>"

text \<open>
  What "\<open>y\<close> is \<open>x\<close> rounded to \<open>d\<close> decimal places" means: \<open>y\<close> is a whole number of units
  \<open>10^-d\<close>, and no further from \<open>x\<close> than half a unit.
\<close>

definition rounded_to_places :: "nat \<Rightarrow> real \<Rightarrow> real \<Rightarrow> bool" where
  "rounded_to_places d x y =
     (of_int \<lfloor>y * 10 ^ d\<rfloor> = y * 10 ^ d \<and> \<bar>y - x\<bar> * (2 * 10 ^ d) \<le> 1)"

section \<open>The control endpoint (api/control.ts): generateRunId\<close>

definition slice :: "string \<Rightarrow> nat \<Rightarrow> nat \<Rightarrow> string" where
  "slice s a b = take (b - a) (drop a s)"

definition hexdigit :: "nat \<Rightarrow> char" where
  "hexdigit n = ''0123456789abcdef'' ! (n mod 16)"

definition byte_hex :: "8 word \<Rightarrow> string" where
  "byte_hex b = [hexdigit (unat b div 16), hexdigit (unat b)]"

text \<open>\<open>Buffer.toString('hex')\<close>: two lower-case hexadecimal digits for each byte.\<close>

definition toString_hex :: "8 word list \<Rightarrow> string" where
  "toString_hex bs = concat (map byte_hex bs)"

text \<open>
  \<open>now\<close> is the clock reading \<open>new Date()\<close> and \<open>rnd\<close> the buffer that \<open>randomBytes(4)\<close>
  returns, four bytes.
\<close>

definition generateRunId :: "js_date \<Rightarrow> 8 word list \<Rightarrow> string" where
  "generateRunId now rnd =
     (let dateStr = filter (\<lambda>c. c \<noteq> CHR ''-'') (slice (toISOString now) 0 10);
          timeStr = filter (\<lambda>c. c \<noteq> CHR '':'') (slice (toISOString now) 11 19);
          randomStr = toString_hex rnd
      in dateStr @ ''-'' @ timeStr @ ''-'' @ randomStr)"

text \<open>A clock reading in the years 0 to 9999, each field in its calendar range.\<close>

definition wf_date :: "js_date \<Rightarrow> bool" where
  "wf_date d =
     (year d \<le> 9999 \<and> 1 \<le> month d \<and> month d \<le> 12 \<and> 1 \<le> day d \<and> day d \<le> 31 \<and>
      hours d < 24 \<and> minutes d < 60 \<and> seconds d < 60 \<and> milliseconds d < 1000)"

section \<open>The aggregator\<close>

text \<open>
  Modelled from the spec: the function that folds the ticks of a bucket into an OHLC
  record is in src/jobs/aggregation, which is not among the sources (only the endpoint
  that starts the job and the \<open>TickData\<close> and \<open>AggregateData\<close> types are). The model
  follows section 4.4 of the specification: the ticks of the half-open window
  \<open>[start, end)\<close> are folded in the order given; open is the first value, close the last,
  high and low the maximum and minimum, \<open>tick_count\<close> the number of ticks; a bucket with
  no tick is not emitted (\<open>None\<close>). Of a \<open>TickData\<close> the fold reads the timestamp, here
  \<open>tick_time\<close> in milliseconds since the epoch, and \<open>total_value\<close>, here \<open>tick_value\<close>; of an
  \<open>AggregateData\<close> it fills the bucket's window and the five values.
\<close>

record TickData =
  tick_time :: nat
  tick_value :: real

record AggregateData =
  bucket_start :: nat
  bucket_end :: nat
  open_value :: real
  high_value :: real
  low_value :: real
  close_value :: real
  tick_count :: nat

text \<open>
  Modelled from the spec: one step of the fold of src/jobs/aggregation, which is not among
  the sources. The first tick opens the bucket; each later one raises the high, lowers
  the low, becomes the close and is counted.
\<close>

definition foldTick :: "nat \<Rightarrow> nat \<Rightarrow> TickData \<Rightarrow> AggregateData option \<Rightarrow> AggregateData option" where
  "foldTick wstart wend t acc =
     (case acc of
        None \<Rightarrow>
          Some \<lparr>bucket_start = wstart, bucket_end = wend,
                open_value = tick_value t, high_value = tick_value t,
                low_value = tick_value t, close_value = tick_value t, tick_count = 1\<rparr>
      | Some a \<Rightarrow>
          Some (a\<lparr>high_value := max (high_value a) (tick_value t),
                  low_value := min (low_value a) (tick_value t),
                  close_value := tick_value t,
                  tick_count := tick_count a + 1\<rparr>))"

text \<open>
  Modelled from the spec: the ticks of the half-open window \<open>[start, end)\<close>, in the order
  given (the selection is made by src/jobs/aggregation, not among the sources).
\<close>

definition inWindow :: "nat \<Rightarrow> nat \<Rightarrow> TickData list \<Rightarrow> TickData list" where
  "inWindow wstart wend ticks = filter (\<lambda>t. wstart \<le> tick_time t \<and> tick_time t < wend) ticks"

text \<open>
  Modelled from the spec: the aggregation of one bucket (src/jobs/aggregation, not among
  the sources), a fold over the ticks of its window; \<open>None\<close> is the bucket that is not
  emitted.
\<close>

definition aggregateBucket :: "nat \<Rightarrow> nat \<Rightarrow> TickData list \<Rightarrow> AggregateData option" where
  "aggregateBucket wstart wend ticks = fold (foldTick wstart wend) (inWindow wstart wend ticks) None"

section \<open>Example inputs (src/sim/simulator.example)\<close>

text \<open>
  The state of the example program and the omitted configuration argument \<open>{}\<close>; the
  same state a little above its target; clock readings one second and half a second
  apart; two results of \<open>randomBytes(4)\<close>; a weight just above the tolerance 0.0001; two
  ticks inside the minute that starts at 0 and one at its end.
\<close>

definition initialState :: SimulationState where
  "initialState =
     \<lparr>currentValue = 100, target = 100, bounds = \<lparr>lower = 95, upper = 105\<rparr>,
      splits = \<lparr>part1 = 0.6, part2 = 0.4\<rparr>, isRunning = True, runId = ''example-run-1''\<rparr>"

definition noConfig :: PartialConfig where
  "noConfig = \<lparr>p_updateFrequencyMs = None, p_volatility = None,
       p_meanReversionRate = None, p_bandWidth = None\<rparr>"

definition date1 :: js_date where
  "date1 = \<lparr>year = 2024, month = 1, day = 15, hours = 10, minutes = 30, seconds = 0, milliseconds = 0\<rparr>"

definition date2 :: js_date where
  "date2 = \<lparr>year = 2024, month = 1, day = 15, hours = 10, minutes = 30, seconds = 1, milliseconds = 0\<rparr>"

definition date1_later :: js_date where
  "date1_later = \<lparr>year = 2024, month = 1, day = 15, hours = 10, minutes = 30, seconds = 0, milliseconds = 500\<rparr>"

definition rnd1 :: "8 word list" where
  "rnd1 = [0xde, 0xad, 0xbe, 0xef]"

definition rnd2 :: "8 word list" where
  "rnd2 = [0xde, 0xad, 0xbe, 0xee]"

definition offTargetState :: SimulationState where
  "offTargetState = initialState\<lparr>currentValue := 10000001 / 100000\<rparr>"

text \<open>The double that the literal \<open>0.00010000000000005\<close> denotes.\<close>

definition nearTolerance :: real where
  "nearTolerance = 3689348814743755 / 2 ^ 65"

definition tickA :: TickData where
  "tickA = \<lparr>tick_time = 1000, tick_value = 100\<rparr>"

definition tickB :: TickData where
  "tickB = \<lparr>tick_time = 2000, tick_value = 101\<rparr>"

definition tickC :: TickData where
  "tickC = \<lparr>tick_time = 60000, tick_value = 999\<rparr>"

section \<open>Boundary reflection\<close>

text \<open>
  C3. The reflection step: a candidate below the lower bound is mirrored to
  \<open>lower + (lower - v)\<close>; otherwise a candidate above the upper bound is mirrored to
  \<open>upper - (v - upper)\<close>; otherwise it is returned as it is. The cases are tried in
  this order, which matters only when the bounds are crossed: with \<open>lower \<le> upper\<close> a
  candidate above the upper bound is never below the lower one. With the bounds
  [95, 105] the candidate 107 reflects to 103 and the candidate 92 reflects to 98.
\<close>

theorem reflect_cases:
  "(v < lo \<longrightarrow> reflect v lo hi = lo + (lo - v)) \<and>
   (\<not> v < lo \<and> v > hi \<longrightarrow> reflect v lo hi = hi - (v - hi)) \<and>
   (\<not> v < lo \<and> \<not> v > hi \<longrightarrow> reflect v lo hi = v) \<and>
   (lo \<le> hi \<and> v > hi \<longrightarrow> reflect v lo hi = hi - (v - hi)) \<and>
   reflect 107 95 105 = 103 \<and> reflect 92 95 105 = 98"
  by (simp add: reflect_def)

theorem reflect_cases_witness:
  "(92::real) < 95 \<and> reflect 92 95 105 = 95 + (95 - 92) \<and>
   \<not> (107::real) < 95 \<and> (107::real) > 105 \<and> reflect 107 95 105 = 105 - (107 - 105) \<and>
   \<not> (100::real) < 95 \<and> \<not> (100::real) > 105 \<and> reflect 100 95 105 = 100 \<and>
   (95::real) \<le> 105"
  using reflect_cases [of 92 95 105] reflect_cases [of 107 95 105] reflect_cases [of 100 95 105]
  by simp

section \<open>The noise draw at two inputs\<close>

lemma addNoise_unit: "addNoise vol (exp (- (1 / 2))) 0 = vol"
  by (simp add: addNoise_def)

lemma addNoise_quarter: "addNoise vol u1 (1 / 4) = 0"
  by (simp add: addNoise_def)

lemma toISOString_date1: "toISOString date1 = ''2024-01-15T10:30:00.000Z''"
  by code_simp

lemma toISOString_date2: "toISOString date2 = ''2024-01-15T10:30:01.000Z''"
  by code_simp

section \<open>The boundary invariant\<close>

text \<open>
  A single reflection brings the candidate back between the bounds when it lies no more
  than the width of the band outside them.
\<close>

lemma reflect_within_one_width:
  assumes "lo \<le> hi" and "lo - (hi - lo) \<le> v" and "v \<le> hi + (hi - lo)"
  shows "lo \<le> reflect v lo hi \<and> reflect v lo hi \<le> hi"
  using assms by (auto simp: reflect_def)

text \<open>Further out than that, the reflected value is outside on the other side.\<close>

lemma reflect_overshoot:
  assumes "lo \<le> hi"
  shows "hi + (hi - lo) < v \<Longrightarrow> reflect v lo hi < lo"
    and "v < lo - (hi - lo) \<Longrightarrow> hi < reflect v lo hi"
  using assms by (auto simp: reflect_def)

text \<open>
  C1. The claim: every tick generated while running has its total value within the
  active bounds, for every starting value in bounds and every noise draw. The code
  reflects once, and a candidate further outside than the width of the band lands
  outside on the other side. The simulator of the example, retargeted to 0.1 (bounds
  [0.095, 0.105]) and reset, starts at 0.1 within its bounds; the draw \<open>u1 = exp (-1/2)\<close>,
  \<open>u2 = 0\<close> is one standard deviation of noise, 0.02; the candidate 0.12 is reflected to
  0.09, below the lower bound, and that is the tick's total value and the new current
  value.
\<close>

theorem generateTick_leaves_bounds:
  "(let sim = reset (updateTarget (constructor initialState noConfig) 0.1) None;
        (t, sim') = generateTick sim date1 (exp (- 1 / 2)) 0
    in lower (bounds (state sim)) = 0.095 \<and> upper (bounds (state sim)) = 0.105 \<and>
       currentValue (state sim) = 0.1 \<and> isRunning (state sim) \<and>
       total_value t = 0.09 \<and> currentValue (state sim') = 0.09 \<and>
       tick_bounds t = \<lparr>lower = 0.095, upper = 0.105\<rparr> \<and>
       total_value t < lower (tick_bounds t))"
  by (simp add: generateTick_def getCurrentTickData_def reset_def updateTarget_def
      constructor_def updateBounds_def initialState_def noConfig_def calculateDrift_def
      addNoise_unit reflect_def truthy_def Let_def)

section \<open>Ticks while paused\<close>

lemma generateTick_paused:
  "\<not> isRunning (state sim) \<Longrightarrow> generateTick sim now u1 u2 = (getCurrentTickData sim now, sim)"
  by (simp add: generateTick_def)

lemma generateTicks_paused:
  "\<not> isRunning (state sim) \<Longrightarrow>
   generateTicks sim calls = (map (\<lambda>c. getCurrentTickData sim (fst c)) calls, sim)"
  by (induction calls) (auto simp: generateTick_paused)

text \<open>
  C2, as the code has it. For every sequence of \<open>generateTick\<close> calls made while paused,
  the simulator is unchanged (no stochastic update), and in every returned tick
  \<open>total_value\<close>, \<open>part1_value\<close>, \<open>part2_value\<close>, \<open>target\<close>, \<open>bounds\<close> and \<open>pct_from_target\<close> are
  the same, computed from that unchanged state. The \<open>timestamp\<close> is not among them: it is
  the clock reading of each call.
\<close>

theorem paused_ticks_unchanged:
  assumes "\<not> isRunning (state sim)"
  shows "snd (generateTicks sim calls) = sim \<and>
         length (fst (generateTicks sim calls)) = length calls \<and>
         (\<forall>i < length calls.
            total_value (fst (generateTicks sim calls) ! i) = currentValue (state sim) \<and>
            part1_value (fst (generateTicks sim calls) ! i)
              = currentValue (state sim) * part1 (splits (state sim)) \<and>
            part2_value (fst (generateTicks sim calls) ! i)
              = currentValue (state sim) * part2 (splits (state sim)) \<and>
            tick_target (fst (generateTicks sim calls) ! i) = target (state sim) \<and>
            tick_bounds (fst (generateTicks sim calls) ! i) = bounds (state sim) \<and>
            pct_from_target (fst (generateTicks sim calls) ! i)
              = (if target (state sim) = 0 then None
                 else Some ((currentValue (state sim) - target (state sim)) / target (state sim) * 100)) \<and>
            timestamp (fst (generateTicks sim calls) ! i) = toISOString (fst (calls ! i)))"
  using assms by (simp add: generateTicks_paused getCurrentTickData_def Let_def)

theorem paused_ticks_unchanged_witness:
  "\<not> isRunning (state (pause (constructor initialState noConfig))) \<and>
   snd (generateTicks (pause (constructor initialState noConfig))
          [(date1, 1 / 2, 1 / 2), (date2, 1 / 2, 1 / 2)]) = pause (constructor initialState noConfig) \<and>
   total_value (fst (generateTicks (pause (constructor initialState noConfig))
          [(date1, 1 / 2, 1 / 2), (date2, 1 / 2, 1 / 2)]) ! 1) = 100"
proof -
  let ?S = "pause (constructor initialState noConfig)"
  let ?calls = "[(date1, 1 / 2, 1 / 2), (date2, 1 / 2 :: real, 1 / 2 :: real)]"
  have p: "\<not> isRunning (state ?S)" by (simp add: pause_def)
  have v: "currentValue (state ?S) = 100"
    by (simp add: pause_def constructor_def updateBounds_def initialState_def)
  have "1 < length ?calls" by simp
  with paused_ticks_unchanged [OF p, of ?calls] v p show ?thesis by auto
qed

text \<open>
  The claim as written counts the timestamp among the unchanged fields: two paused calls
  one second apart return different timestamps.
\<close>

theorem paused_timestamp_counterexample:
  "\<not> isRunning (state (pause (constructor initialState noConfig))) \<and>
   timestamp (fst (generateTicks (pause (constructor initialState noConfig))
                     [(date1, 1 / 2, 1 / 2), (date2, 1 / 2, 1 / 2)]) ! 0)
   \<noteq> timestamp (fst (generateTicks (pause (constructor initialState noConfig))
                     [(date1, 1 / 2, 1 / 2), (date2, 1 / 2, 1 / 2)]) ! 1)"
  by (simp add: generateTick_def getCurrentTickData_def pause_def constructor_def
      updateBounds_def initialState_def toISOString_date1 toISOString_date2)

section \<open>Reset\<close>

text \<open>
  C5, as the code has it. From any state, running or paused, \<open>reset\<close> sets the current
  value to the target and the state to running, leaves target, bounds, split weights and
  configuration as they were, and replaces the run identity exactly when the argument is
  supplied and is not the empty string.
\<close>

theorem reset_effect:
  "currentValue (state (reset sim newRunId)) = target (state sim) \<and>
   isRunning (state (reset sim newRunId)) \<and>
   runId (state (reset sim newRunId))
     = (case newRunId of None \<Rightarrow> runId (state sim)
        | Some r \<Rightarrow> if r = [] then runId (state sim) else r) \<and>
   target (state (reset sim newRunId)) = target (state sim) \<and>
   bounds (state (reset sim newRunId)) = bounds (state sim) \<and>
   splits (state (reset sim newRunId)) = splits (state sim) \<and>
   config (reset sim newRunId) = config sim"
  by (simp add: reset_def truthy_def Let_def split: option.splits)

text \<open>
  The claim as written replaces the identity whenever an argument is supplied: the empty
  string is supplied here, and the run identity stays \<open>example-run-1\<close>.
\<close>

theorem reset_empty_runId_counterexample:
  "runId (state (reset (constructor initialState noConfig) (Some ''''))) = ''example-run-1'' \<and>
   runId (state (reset (constructor initialState noConfig) (Some ''''))) \<noteq> ''''"
  by (simp add: reset_def truthy_def constructor_def updateBounds_def initialState_def)

section \<open>Rounding to the nearest double\<close>

lemma round_even_of_int [simp]: "round_even (of_int k) = k"
  by (simp add: round_even_def)

lemma round_even_bounds: "\<lfloor>m\<rfloor> \<le> round_even m \<and> round_even m \<le> \<lfloor>m\<rfloor> + 1"
  by (simp add: round_even_def Let_def)

lemma round_even_mono:
  assumes "m \<le> m'"
  shows "round_even m \<le> round_even m'"
proof (cases "\<lfloor>m\<rfloor> = \<lfloor>m'\<rfloor>")
  case True
  with assms show ?thesis by (auto simp: round_even_def Let_def)
next
  case False
  with assms have "\<lfloor>m\<rfloor> + 1 \<le> \<lfloor>m'\<rfloor>"
    using floor_mono [of m m'] by linarith
  with round_even_bounds [of m] round_even_bounds [of m'] show ?thesis by linarith
qed

lemma round_even_minus: "round_even (- m) = - round_even m"
proof (cases "m = of_int \<lfloor>m\<rfloor>")
  case True
  then have "round_even (- m) = round_even (of_int (- \<lfloor>m\<rfloor>))" by simp
  also have "\<dots> = - \<lfloor>m\<rfloor>" by (rule round_even_of_int)
  also have "\<dots> = - round_even (of_int \<lfloor>m\<rfloor>)" by simp
  finally show ?thesis using True by simp
next
  case False
  then have lt: "of_int \<lfloor>m\<rfloor> < m" using of_int_floor_le [of m] by linarith
  have f: "\<lfloor>- m\<rfloor> = - \<lfloor>m\<rfloor> - 1"
    using lt by (intro floor_unique) (simp_all, linarith+)
  show ?thesis
    unfolding round_even_def Let_def f using lt by (auto simp: algebra_simps)
qed


lemma two_powr_int: "(2::real) powr real_of_int n = 2 powi n"
  by (rule powr_real_of_int') simp_all

lemma floor_log2_eq:
  assumes "2 powi e \<le> x" and "x < 2 powi (e + 1)"
  shows "\<lfloor>log 2 x\<rfloor> = e"
proof -
  have "0 < (2::real) powi e" by simp
  with assms(1) have pos: "0 < x" by linarith
  have "2 powr real_of_int e \<le> x \<and> x < 2 powr (real_of_int e + 1)"
    using assms two_powr_int [of e] two_powr_int [of "e + 1"] by simp
  with pos show ?thesis by (simp add: floor_log_eq_powr_iff)
qed

lemma ulp_exp_normal:
  assumes "2 powi e \<le> \<bar>x\<bar>" and "\<bar>x\<bar> < 2 powi (e + 1)" and "- 1022 \<le> e"
  shows "ulp_exp x = e - 52"
  using floor_log2_eq [OF assms(1,2)] assms(3) by (simp add: ulp_exp_def)

lemma fl_eval:
  assumes "2 powi e \<le> \<bar>x\<bar>" and "\<bar>x\<bar> < 2 powi (e + 1)" and "- 1022 \<le> e"
  shows "fl x = of_int (round_even (x / 2 powi (e - 52))) * 2 powi (e - 52)"
proof -
  have "0 < (2::real) powi e" by simp
  with assms(1) have "x \<noteq> 0" by linarith
  then show ?thesis by (simp add: fl_def ulp_exp_normal [OF assms])
qed

lemma ulp_exp_minus [simp]: "ulp_exp (- x) = ulp_exp x"
  by (simp add: ulp_exp_def)

lemma fl_minus: "fl (- x) = - fl x"
  by (simp add: fl_def round_even_minus)

lemma fl_zero [simp]: "fl 0 = 0"
  by (simp add: fl_def)

lemma ulp_exp_upper:
  assumes "0 < x"
  shows "x < 2 powi (ulp_exp x + 53)"
proof -
  let ?E = "max \<lfloor>log 2 x\<rfloor> (- 1022)"
  have "log 2 x < real_of_int (\<lfloor>log 2 x\<rfloor> + 1)" by linarith
  also have "\<dots> \<le> real_of_int (?E + 1)" by simp
  finally have "log 2 x < real_of_int (?E + 1)" .
  then have "x < 2 powr real_of_int (?E + 1)"
    using assms by (simp add: log_less_iff)
  also have "\<dots> = 2 powi (?E + 1)" by (rule two_powr_int)
  also have "?E + 1 = ulp_exp x + 53" using assms by (simp add: ulp_exp_def)
  finally show ?thesis .
qed

lemma ulp_exp_lower:
  assumes "0 < x" and "- 1074 < ulp_exp x"
  shows "2 powi (ulp_exp x + 52) \<le> x"
proof -
  from assms have e: "ulp_exp x + 52 = \<lfloor>log 2 x\<rfloor>"
    by (simp add: ulp_exp_def max_def split: if_splits)
  have "real_of_int \<lfloor>log 2 x\<rfloor> \<le> log 2 x" by simp
  then have "2 powr real_of_int \<lfloor>log 2 x\<rfloor> \<le> x"
    using assms(1) by (simp add: powr_le_iff)
  then show ?thesis unfolding e two_powr_int .
qed

lemma ulp_exp_mono:
  assumes "0 < x" and "x \<le> y"
  shows "ulp_exp x \<le> ulp_exp y"
proof -
  from assms have "log 2 x \<le> log 2 y" by simp
  then have "\<lfloor>log 2 x\<rfloor> \<le> \<lfloor>log 2 y\<rfloor>" by (rule floor_mono)
  with assms show ?thesis by (simp add: ulp_exp_def)
qed

lemma ulp_exp_ge: "- 1074 \<le> ulp_exp x"
  by (simp add: ulp_exp_def)

lemma fl_mono_pos:
  assumes "0 < x" and "x \<le> y"
  shows "fl x \<le> fl y"
proof (cases "ulp_exp x = ulp_exp y")
  case True
  let ?p = "(2::real) powi ulp_exp y"
  have p: "0 < ?p" by simp
  from assms p have "x / ?p \<le> y / ?p" by (simp add: divide_right_mono)
  then have "round_even (x / ?p) \<le> round_even (y / ?p)" by (rule round_even_mono)
  then have "real_of_int (round_even (x / ?p)) * ?p \<le> real_of_int (round_even (y / ?p)) * ?p"
    using p by (simp add: mult_right_mono)
  with assms True show ?thesis by (simp add: fl_def)
next
  case False
  let ?ex = "ulp_exp x" and ?ey = "ulp_exp y"
  from assms have y: "0 < y" by linarith
  from False ulp_exp_mono [OF assms] have lt: "?ex < ?ey" by linarith
  have px: "0 < (2::real) powi ?ex" and py: "0 < (2::real) powi ?ey" by simp_all
  have "x < 2 powi (?ex + 53)" using assms(1) by (rule ulp_exp_upper)
  also have "\<dots> = 2 powi ?ex * 2 ^ 53" by (simp add: power_int_add)
  finally have "x / 2 powi ?ex \<le> real_of_int (2 ^ 53)"
    using px by (simp add: field_simps)
  then have "round_even (x / 2 powi ?ex) \<le> round_even (real_of_int (2 ^ 53))"
    by (rule round_even_mono)
  then have "round_even (x / 2 powi ?ex) \<le> 2 ^ 53" by (simp only: round_even_of_int)
  then have "real_of_int (round_even (x / 2 powi ?ex)) \<le> 2 ^ 53"
    by (metis of_int_le_iff of_int_numeral of_int_power)
  then have "real_of_int (round_even (x / 2 powi ?ex)) * 2 powi ?ex \<le> 2 ^ 53 * 2 powi ?ex"
    using px by (simp add: mult_right_mono)
  also have "\<dots> = 2 powi (?ex + 53)" by (simp add: power_int_add)
  also have "\<dots> \<le> 2 powi (?ey + 52)"
    using lt by (intro power_int_increasing) simp_all
  finally have ux: "fl x \<le> 2 powi (?ey + 52)" using assms(1) by (simp add: fl_def)
  from lt ulp_exp_ge [of x] have "- 1074 < ?ey" by linarith
  with y have "2 powi (?ey + 52) \<le> y" by (rule ulp_exp_lower)
  moreover have "(2::real) powi (?ey + 52) = 2 powi ?ey * 2 ^ 52" by (simp add: power_int_add)
  ultimately have "real_of_int (2 ^ 52) \<le> y / 2 powi ?ey"
    using py by (simp add: field_simps)
  then have "round_even (real_of_int (2 ^ 52)) \<le> round_even (y / 2 powi ?ey)"
    by (rule round_even_mono)
  then have "2 ^ 52 \<le> round_even (y / 2 powi ?ey)" by (simp only: round_even_of_int)
  then have "2 ^ 52 \<le> real_of_int (round_even (y / 2 powi ?ey))"
    by (metis of_int_le_iff of_int_numeral of_int_power)
  then have ge: "2 ^ 52 * 2 powi ?ey \<le> real_of_int (round_even (y / 2 powi ?ey)) * 2 powi ?ey"
    using py by (simp add: mult_right_mono)
  have fy: "fl y = real_of_int (round_even (y / 2 powi ?ey)) * 2 powi ?ey"
    using y by (simp add: fl_def)
  have "(2::real) powi (?ey + 52) = 2 ^ 52 * 2 powi ?ey" by (simp add: power_int_add)
  also note ge
  finally have "2 powi (?ey + 52) \<le> fl y" unfolding fy .
  with ux show ?thesis by linarith
qed

lemma fl_nonneg:
  assumes "0 \<le> x"
  shows "0 \<le> fl x"
proof (cases "x = 0")
  case True
  then show ?thesis by simp
next
  case False
  have "0 \<le> x / 2 powi ulp_exp x" using assms by simp
  then have "round_even 0 \<le> round_even (x / 2 powi ulp_exp x)" by (rule round_even_mono)
  then have "0 \<le> round_even (x / 2 powi ulp_exp x)"
    using round_even_of_int [of 0] by simp
  then show ?thesis using False by (simp add: fl_def)
qed

lemma fl_mono:
  assumes "x \<le> y"
  shows "fl x \<le> fl y"
proof -
  consider "0 < x" | "x \<le> 0" "0 \<le> y" | "y < 0" by linarith
  then show ?thesis
  proof cases
    case 1
    then show ?thesis using assms by (rule fl_mono_pos)
  next
    case 2
    from 2(1) have "0 \<le> fl (- x)" by (intro fl_nonneg) simp
    then have "fl x \<le> 0" by (simp add: fl_minus)
    with fl_nonneg [OF 2(2)] show ?thesis by linarith
  next
    case 3
    with assms have "0 < - y" "- y \<le> - x" by simp_all
    then have "fl (- y) \<le> fl (- x)" by (rule fl_mono_pos)
    then show ?thesis by (simp add: fl_minus)
  qed
qed


lemma fl_exact:
  assumes "2 ^ 52 \<le> \<bar>k\<bar>" and "\<bar>k\<bar> < 2 ^ 53" and "- 1074 \<le> q"
  shows "fl (of_int k * 2 powi q) = of_int k * 2 powi q"
proof -
  let ?x = "real_of_int k * 2 powi q"
  have p: "0 < (2::real) powi q" by simp
  have ax: "\<bar>?x\<bar> = real_of_int \<bar>k\<bar> * 2 powi q" by (simp add: abs_mult)
  from assms(1) have "real_of_int (2 ^ 52) \<le> real_of_int \<bar>k\<bar>" by (simp only: of_int_le_iff)
  then have "2 ^ 52 * 2 powi q \<le> real_of_int \<bar>k\<bar> * 2 powi q"
    using p by (simp add: mult_right_mono)
  moreover have "(2::real) powi (q + 52) = 2 ^ 52 * 2 powi q" by (simp add: power_int_add)
  ultimately have lo: "2 powi (q + 52) \<le> \<bar>?x\<bar>" unfolding ax by simp
  from assms(2) have "real_of_int \<bar>k\<bar> < real_of_int (2 ^ 53)" by (simp only: of_int_less_iff)
  then have "real_of_int \<bar>k\<bar> * 2 powi q < 2 ^ 53 * 2 powi q"
    using p by (simp add: mult_strict_right_mono)
  moreover have "(2::real) powi (q + 52 + 1) = 2 ^ 53 * 2 powi q" by (simp add: power_int_add)
  ultimately have hi: "\<bar>?x\<bar> < 2 powi (q + 52 + 1)" unfolding ax by simp
  from assms(3) have e: "- 1022 \<le> q + 52" by simp
  have "fl ?x = real_of_int (round_even (?x / 2 powi (q + 52 - 52))) * 2 powi (q + 52 - 52)"
    using lo hi e by (rule fl_eval)
  also have "?x / 2 powi (q + 52 - 52) = real_of_int k" by simp
  finally show ?thesis by simp
qed

lemma fl_tolerance: "fl (1 / 10000) = 7378697629483821 / 2 ^ 66"
proof -
  have "fl (1 / 10000) = real_of_int (round_even ((1 / 10000) / 2 powi (- 14 - 52))) * 2 powi (- 14 - 52)"
    by (rule fl_eval) (simp_all add: power_int_minus)
  also have "(1 / 10000 :: real) / 2 powi (- 14 - 52) = 73786976294838206464 / 10000"
    by (simp add: power_int_minus)
  also have "round_even (73786976294838206464 / 10000) = 7378697629483821"
    by (simp add: round_even_def)
  finally show ?thesis by (simp add: power_int_minus)
qed

lemma fl_9999: "fl (9999 / 10000) = 4503149267407759 / 2 ^ 52"
proof -
  have "fl (9999 / 10000) = real_of_int (round_even ((9999 / 10000) / 2 powi (- 1 - 52))) * 2 powi (- 1 - 52)"
    by (rule fl_eval) (simp_all add: power_int_minus)
  also have "(9999 / 10000 :: real) / 2 powi (- 1 - 52) = 9999 * 9007199254740992 / 10000"
    by (simp add: power_int_minus)
  also have "round_even (9999 * 9007199254740992 / 10000) = 9006298534815518"
    by (simp add: round_even_def)
  finally show ?thesis by (simp add: power_int_minus)
qed

lemma fl_10001: "fl (10001 / 10000) = 4504049987333233 / 2 ^ 52"
proof -
  have "fl (10001 / 10000) = real_of_int (round_even ((10001 / 10000) / 2 powi (0 - 52))) * 2 powi (0 - 52)"
    by (rule fl_eval) (simp_all add: power_int_minus)
  also have "(10001 / 10000 :: real) / 2 powi (0 - 52) = 10001 * 4503599627370496 / 10000"
    by (simp add: power_int_minus)
  also have "round_even (10001 * 4503599627370496 / 10000) = 4504049987333233"
    by (simp add: round_even_def)
  finally show ?thesis by (simp add: power_int_minus)
qed

lemma fl_exact_c: "fl (7378697629483821 / 2 ^ 66) = 7378697629483821 / 2 ^ 66"
  using fl_exact [of 7378697629483821 "- 66"] by (simp add: power_int_minus field_simps)

lemma fl_exact_t0: "fl (7378697629499392 / 2 ^ 66) = 7378697629499392 / 2 ^ 66"
  using fl_exact [of 7378697629499392 "- 66"] by (simp add: power_int_minus field_simps)

lemma fl_exact_t1: "fl (7378697629491200 / 2 ^ 66) = 7378697629491200 / 2 ^ 66"
  using fl_exact [of 7378697629491200 "- 66"] by (simp add: power_int_minus field_simps)

lemma fl_exact_above: "fl (4504049987333234 / 2 ^ 52) = 4504049987333234 / 2 ^ 52"
  using fl_exact [of 4504049987333234 "- 52"] by (simp add: power_int_minus field_simps)

lemma fl_exact_below: "fl (9006298534815517 / 2 ^ 53) = 9006298534815517 / 2 ^ 53"
  using fl_exact [of 9006298534815517 "- 53"] by (simp add: power_int_minus field_simps)

lemma fl_nearTolerance: "fl (10000000000005 / 10 ^ 17) = nearTolerance"
proof -
  have "fl (10000000000005 / 10 ^ 17)
      = real_of_int (round_even ((10000000000005 / 10 ^ 17) / 2 powi (- 14 - 52))) * 2 powi (- 14 - 52)"
    by (rule fl_eval) (simp_all add: power_int_minus)
  also have "(10000000000005 / 10 ^ 17 :: real) / 2 powi (- 14 - 52)
      = 10000000000005 * 73786976294838206464 / 10 ^ 17"
    by (simp add: power_int_minus)
  also have "round_even (10000000000005 * 73786976294838206464 / 10 ^ 17) = 7378697629487510"
    by (simp add: round_even_def)
  finally show ?thesis by (simp add: power_int_minus nearTolerance_def)
qed

lemma fl_one_plus_nearTolerance: "fl (1 + nearTolerance) = 4504049987333233 / 2 ^ 52"
proof -
  have "fl (1 + nearTolerance)
      = real_of_int (round_even ((1 + nearTolerance) / 2 powi (0 - 52))) * 2 powi (0 - 52)"
    by (rule fl_eval) (simp_all add: power_int_minus nearTolerance_def)
  also have "(1 + nearTolerance) / 2 powi (0 - 52) = 36897177496233846987 / 8192"
    by (simp add: power_int_minus nearTolerance_def)
  also have "round_even (36897177496233846987 / 8192) = 4504049987333233"
    by (simp add: round_even_def)
  finally show ?thesis by (simp add: power_int_minus)
qed

text \<open>
  The test on a rounded sum \<open>r\<close>: it passes between the doubles nearest to 0.9999 and
  1.0001, and fails from the next double on either side.
\<close>

lemma tolerance_passes_rounded:
  assumes "4503149267407759 / 2 ^ 52 \<le> r" and "r \<le> 4504049987333233 / 2 ^ 52"
  shows "\<bar>fl (r - 1)\<bar> \<le> fl (1 / 10000)"
proof -
  let ?c = "7378697629483821 / 2 ^ 66 :: real"
  from assms(2) have "r - 1 \<le> ?c" by simp
  then have "fl (r - 1) \<le> fl ?c" by (rule fl_mono)
  then have up: "fl (r - 1) \<le> ?c" by (simp only: fl_exact_c)
  from assms(1) have "- ?c \<le> r - 1" by simp
  then have "fl (- ?c) \<le> fl (r - 1)" by (rule fl_mono)
  then have lo: "- ?c \<le> fl (r - 1)" by (simp only: fl_minus fl_exact_c)
  from up lo show ?thesis unfolding fl_tolerance by (auto simp: abs_le_iff)
qed

lemma tolerance_passes:
  assumes "\<bar>s - 1\<bar> \<le> 1 / 10000"
  shows "\<bar>fl (fl s - 1)\<bar> \<le> fl (1 / 10000)"
proof -
  from assms have "9999 / 10000 \<le> s" and "s \<le> 10001 / 10000" by linarith+
  then have "fl (9999 / 10000) \<le> fl s" and "fl s \<le> fl (10001 / 10000)"
    by (simp_all only: fl_mono)
  then show ?thesis unfolding fl_9999 fl_10001 by (rule tolerance_passes_rounded)
qed

lemma tolerance_fails:
  assumes "1 / 10000 + 3 / 10 ^ 16 \<le> \<bar>s - 1\<bar>"
  shows "fl (1 / 10000) < \<bar>fl (fl s - 1)\<bar>"
proof (cases "1 \<le> s")
  case True
  with assms have "4504049987333234 / 2 ^ 52 \<le> s" by simp
  then have "fl (4504049987333234 / 2 ^ 52) \<le> fl s" by (rule fl_mono)
  then have "7378697629499392 / 2 ^ 66 \<le> fl s - 1" by (simp only: fl_exact_above) simp
  then have "fl (7378697629499392 / 2 ^ 66) \<le> fl (fl s - 1)" by (rule fl_mono)
  then have "7378697629499392 / 2 ^ 66 \<le> fl (fl s - 1)" by (simp only: fl_exact_t0)
  then show ?thesis unfolding fl_tolerance by simp
next
  case False
  with assms have "s \<le> 9006298534815517 / 2 ^ 53" by simp
  then have "fl s \<le> fl (9006298534815517 / 2 ^ 53)" by (rule fl_mono)
  then have "fl s - 1 \<le> - (7378697629491200 / 2 ^ 66)" by (simp only: fl_exact_below) simp
  then have "fl (fl s - 1) \<le> fl (- (7378697629491200 / 2 ^ 66))" by (rule fl_mono)
  then have "fl (fl s - 1) \<le> - (7378697629491200 / 2 ^ 66)" by (simp only: fl_minus fl_exact_t1)
  then show ?thesis unfolding fl_tolerance by simp
qed

lemma updateSplits_accept:
  assumes "\<bar>w1 + w2 - 1\<bar> \<le> 0.0001"
  shows "updateSplits sim w1 w2
           = (None, sim\<lparr>state := (state sim)\<lparr>splits := \<lparr>part1 = w1, part2 = w2\<rparr>\<rparr>\<rparr>)"
proof -
  from assms have "\<bar>(w1 + w2) - 1\<bar> \<le> 1 / 10000" by simp
  then have "\<bar>fl (fl (w1 + w2) - 1)\<bar> \<le> fl (1 / 10000)" by (rule tolerance_passes)
  then show ?thesis by (simp add: updateSplits_def)
qed

lemma updateSplits_reject:
  assumes "0.0001 + 3 / 10 ^ 16 \<le> \<bar>w1 + w2 - 1\<bar>"
  shows "updateSplits sim w1 w2 = (Some (Error ''Portfolio splits must sum to 1''), sim)"
proof -
  from assms have "1 / 10000 + 3 / 10 ^ 16 \<le> \<bar>(w1 + w2) - 1\<bar>" by simp
  then have "fl (1 / 10000) < \<bar>fl (fl (w1 + w2) - 1)\<bar>" by (rule tolerance_fails)
  then show ?thesis by (simp add: updateSplits_def)
qed

section \<open>Split weights\<close>

text \<open>
  C4, as the code has it. The test is made in double arithmetic. When \<open>\<bar>w1 + w2 - 1\<bar>\<close> is
  at least \<open>0.0001 + 3e-16\<close> (0.5 and 0.6, for one), \<open>updateSplits\<close> fails with the
  validation error and the simulator, its prior weights among the rest, is as before;
  when it is at most 0.0001 there is no error and both weights are replaced together,
  nothing else changing; in the gap between the two, rounding decides. In every case
  either the call fails and nothing changes, or both weights are replaced.
\<close>

theorem updateSplits_tolerance:
  "(0.0001 + 3 / 10 ^ 16 \<le> \<bar>w1 + w2 - 1\<bar> \<longrightarrow>
      updateSplits sim w1 w2 = (Some (Error ''Portfolio splits must sum to 1''), sim)) \<and>
   (\<bar>w1 + w2 - 1\<bar> \<le> 0.0001 \<longrightarrow>
      fst (updateSplits sim w1 w2) = None \<and>
      splits (state (snd (updateSplits sim w1 w2))) = \<lparr>part1 = w1, part2 = w2\<rparr> \<and>
      snd (updateSplits sim w1 w2)
        = sim\<lparr>state := (state sim)\<lparr>splits := \<lparr>part1 = w1, part2 = w2\<rparr>\<rparr>\<rparr>) \<and>
   (updateSplits sim w1 w2 = (Some (Error ''Portfolio splits must sum to 1''), sim) \<or>
    updateSplits sim w1 w2
      = (None, sim\<lparr>state := (state sim)\<lparr>splits := \<lparr>part1 = w1, part2 = w2\<rparr>\<rparr>\<rparr>))"
proof -
  have 1: "0.0001 + 3 / 10 ^ 16 \<le> \<bar>w1 + w2 - 1\<bar> \<longrightarrow>
      updateSplits sim w1 w2 = (Some (Error ''Portfolio splits must sum to 1''), sim)"
    using updateSplits_reject [of w1 w2 sim] by blast
  have 2: "\<bar>w1 + w2 - 1\<bar> \<le> 0.0001 \<longrightarrow>
      fst (updateSplits sim w1 w2) = None \<and>
      splits (state (snd (updateSplits sim w1 w2))) = \<lparr>part1 = w1, part2 = w2\<rparr> \<and>
      snd (updateSplits sim w1 w2)
        = sim\<lparr>state := (state sim)\<lparr>splits := \<lparr>part1 = w1, part2 = w2\<rparr>\<rparr>\<rparr>"
    by (simp add: updateSplits_accept)
  have 3: "updateSplits sim w1 w2 = (Some (Error ''Portfolio splits must sum to 1''), sim) \<or>
    updateSplits sim w1 w2
      = (None, sim\<lparr>state := (state sim)\<lparr>splits := \<lparr>part1 = w1, part2 = w2\<rparr>\<rparr>\<rparr>)"
    by (simp add: updateSplits_def)
  from 1 2 3 show ?thesis by blast
qed

theorem updateSplits_tolerance_witness:
  "0.0001 + 3 / 10 ^ 16 \<le> \<bar>0.5 + 0.6 - 1 :: real\<bar> \<and>
   fst (updateSplits (constructor initialState noConfig) 0.5 0.6)
     = Some (Error ''Portfolio splits must sum to 1'') \<and>
   splits (state (snd (updateSplits (constructor initialState noConfig) 0.5 0.6)))
     = \<lparr>part1 = 0.6, part2 = 0.4\<rparr> \<and>
   \<bar>0.7 + 0.3 - 1 :: real\<bar> \<le> 0.0001 \<and>
   fst (updateSplits (constructor initialState noConfig) 0.7 0.3) = None \<and>
   splits (state (snd (updateSplits (constructor initialState noConfig) 0.7 0.3)))
     = \<lparr>part1 = 0.7, part2 = 0.3\<rparr>"
proof -
  have a: "0.0001 + 3 / 10 ^ 16 \<le> \<bar>0.5 + 0.6 - 1 :: real\<bar>" by simp
  have b: "\<bar>0.7 + 0.3 - 1 :: real\<bar> \<le> 0.0001" by simp
  have s: "splits (state (constructor initialState noConfig)) = \<lparr>part1 = 0.6, part2 = 0.4\<rparr>"
    by (simp add: constructor_def updateBounds_def initialState_def)
  from updateSplits_tolerance [of "0.5" "0.6" "constructor initialState noConfig"] a
  have 1: "updateSplits (constructor initialState noConfig) 0.5 0.6
      = (Some (Error ''Portfolio splits must sum to 1''), constructor initialState noConfig)"
    by blast
  from updateSplits_tolerance [of "0.7" "0.3" "constructor initialState noConfig"] b
  have 2: "fst (updateSplits (constructor initialState noConfig) 0.7 0.3) = None \<and>
      splits (state (snd (updateSplits (constructor initialState noConfig) 0.7 0.3)))
        = \<lparr>part1 = 0.7, part2 = 0.3\<rparr>"
    by blast
  show ?thesis using a b 1 2 s by simp
qed

text \<open>
  The claim as written has every pair with \<open>\<bar>w1 + w2 - 1\<bar> > 0.0001\<close> fail. The weights 1
  and 0.00010000000000005 are doubles whose sum is off 1 by more than 0.0001; the sum
  rounds to the double nearest to 1.0001, the test passes, and the weights of the example,
  0.6 and 0.4, are replaced.
\<close>

theorem updateSplits_boundary_counterexample:
  "0.0001 < \<bar>1 + nearTolerance - 1\<bar> \<and>
   splits (state (constructor initialState noConfig)) = \<lparr>part1 = 0.6, part2 = 0.4\<rparr> \<and>
   fst (updateSplits (constructor initialState noConfig) 1 nearTolerance) = None \<and>
   splits (state (snd (updateSplits (constructor initialState noConfig) 1 nearTolerance)))
     = \<lparr>part1 = 1, part2 = nearTolerance\<rparr>"
proof -
  have a: "0.0001 < \<bar>1 + nearTolerance - 1\<bar>" by (simp add: nearTolerance_def)
  have s: "splits (state (constructor initialState noConfig)) = \<lparr>part1 = 0.6, part2 = 0.4\<rparr>"
    by (simp add: constructor_def updateBounds_def initialState_def)
  have "\<bar>fl (fl (1 + nearTolerance) - 1)\<bar> \<le> fl (1 / 10000)"
    unfolding fl_one_plus_nearTolerance by (rule tolerance_passes_rounded) simp_all
  then have u: "updateSplits (constructor initialState noConfig) 1 nearTolerance
      = (None, (constructor initialState noConfig)\<lparr>state := (state (constructor initialState noConfig))
          \<lparr>splits := \<lparr>part1 = 1, part2 = nearTolerance\<rparr>\<rparr>\<rparr>)"
    by (simp add: updateSplits_def)
  from a s show ?thesis unfolding u by simp
qed

lemma generateTick_parts:
  "part1_value (fst (generateTick sim now u1 u2))
     = total_value (fst (generateTick sim now u1 u2)) * part1 (splits (state sim)) \<and>
   part2_value (fst (generateTick sim now u1 u2))
     = total_value (fst (generateTick sim now u1 u2)) * part2 (splits (state sim))"
  by (simp add: generateTick_def getCurrentTickData_def Let_def)

lemma generateTick_splits:
  "splits (state (snd (generateTick sim now u1 u2))) = splits (state sim)"
  by (simp add: generateTick_def Let_def)

lemma generateTick_example_quarter:
  "total_value (fst (generateTick
      ((constructor initialState noConfig)\<lparr>state := (state (constructor initialState noConfig))\<lparr>splits := sp\<rparr>\<rparr>)
      now u1 (1 / 4))) = 100"
  by (simp add: generateTick_def getCurrentTickData_def constructor_def updateBounds_def
      initialState_def noConfig_def calculateDrift_def addNoise_quarter reflect_def Let_def)

text \<open>
  C6, as the code has it. With weights \<open>w1\<close>, \<open>w2\<close> that pass the validation
  (\<open>\<bar>w1 + w2 - 1\<bar> \<le> 0.0001\<close>), every tick has \<open>part1_value = total_value * w1\<close> and
  \<open>part2_value = total_value * w2\<close>, so the two parts differ from the total by
  \<open>total_value * (w1 + w2 - 1)\<close>: at most \<open>\<bar>total_value\<bar> * 0.0001\<close>, and nothing when the
  weights sum to 1. Generating a tick leaves the weights as they are, so this holds for
  every later tick too.
\<close>

theorem parts_sum_within_weight_tolerance:
  assumes "splits (state sim) = \<lparr>part1 = w1, part2 = w2\<rparr>" and "\<bar>w1 + w2 - 1\<bar> \<le> 0.0001"
  shows "part1_value (fst (generateTick sim now u1 u2))
           = total_value (fst (generateTick sim now u1 u2)) * w1 \<and>
         part2_value (fst (generateTick sim now u1 u2))
           = total_value (fst (generateTick sim now u1 u2)) * w2 \<and>
         part1_value (fst (generateTick sim now u1 u2))
            + part2_value (fst (generateTick sim now u1 u2))
            - total_value (fst (generateTick sim now u1 u2))
           = total_value (fst (generateTick sim now u1 u2)) * (w1 + w2 - 1) \<and>
         \<bar>part1_value (fst (generateTick sim now u1 u2))
            + part2_value (fst (generateTick sim now u1 u2))
            - total_value (fst (generateTick sim now u1 u2))\<bar>
           \<le> \<bar>total_value (fst (generateTick sim now u1 u2))\<bar> * 0.0001 \<and>
         splits (state (snd (generateTick sim now u1 u2))) = \<lparr>part1 = w1, part2 = w2\<rparr>"
proof -
  let ?t = "fst (generateTick sim now u1 u2)"
  have p1: "part1_value ?t = total_value ?t * w1" and p2: "part2_value ?t = total_value ?t * w2"
    using generateTick_parts [of sim now u1 u2] assms(1) by simp_all
  have d: "part1_value ?t + part2_value ?t - total_value ?t = total_value ?t * (w1 + w2 - 1)"
    by (simp add: p1 p2 algebra_simps)
  then have "\<bar>part1_value ?t + part2_value ?t - total_value ?t\<bar>
      = \<bar>total_value ?t\<bar> * \<bar>w1 + w2 - 1\<bar>"
    by (simp add: abs_mult)
  also have "\<dots> \<le> \<bar>total_value ?t\<bar> * 0.0001"
    using assms(2) by (intro mult_left_mono) simp_all
  finally have b: "\<bar>part1_value ?t + part2_value ?t - total_value ?t\<bar>
      \<le> \<bar>total_value ?t\<bar> * 0.0001" .
  have s: "splits (state (snd (generateTick sim now u1 u2))) = \<lparr>part1 = w1, part2 = w2\<rparr>"
    using assms(1) by (simp add: generateTick_splits)
  from p1 p2 d b s show ?thesis by blast
qed

theorem parts_sum_within_weight_tolerance_witness:
  "splits (state (snd (updateSplits (constructor initialState noConfig) 0.6 0.4)))
     = \<lparr>part1 = 0.6, part2 = 0.4\<rparr> \<and>
   \<bar>0.6 + 0.4 - 1 :: real\<bar> \<le> 0.0001 \<and>
   total_value (fst (generateTick (snd (updateSplits (constructor initialState noConfig) 0.6 0.4))
       date1 (1 / 2) (1 / 4))) = 100 \<and>
   part1_value (fst (generateTick (snd (updateSplits (constructor initialState noConfig) 0.6 0.4))
       date1 (1 / 2) (1 / 4))) = 60 \<and>
   part2_value (fst (generateTick (snd (updateSplits (constructor initialState noConfig) 0.6 0.4))
       date1 (1 / 2) (1 / 4))) = 40"
proof -
  let ?S = "constructor initialState noConfig"
  let ?S' = "snd (updateSplits ?S 0.6 0.4)"
  let ?t = "fst (generateTick ?S' date1 (1 / 2) (1 / 4))"
  have a: "\<bar>0.6 + 0.4 - 1 :: real\<bar> \<le> 0.0001" by simp
  have u: "?S' = ?S\<lparr>state := (state ?S)\<lparr>splits := \<lparr>part1 = 0.6, part2 = 0.4\<rparr>\<rparr>\<rparr>"
    using a by (simp add: updateSplits_accept)
  have sp: "splits (state ?S') = \<lparr>part1 = 0.6, part2 = 0.4\<rparr>"
    using a by (simp add: updateSplits_accept)
  have t: "total_value ?t = 100"
    by (simp only: u generateTick_example_quarter)
  note th = parts_sum_within_weight_tolerance [OF sp a, of date1 "1 / 2" "1 / 4"]
  have "part1_value ?t = total_value ?t * 0.6" using th by blast
  then have p1: "part1_value ?t = 60" unfolding t by simp
  have "part2_value ?t = total_value ?t * 0.4" using th by blast
  then have p2: "part2_value ?t = 40" unfolding t by simp
  from sp a t p1 p2 show ?thesis by blast
qed

text \<open>
  The claim as written bounds the difference by 1e-9: the weights 0.5 and 0.50005 pass
  the validation, and the next tick, of total value 100, has parts that sum to 100.005.
\<close>

theorem parts_sum_counterexample:
  "\<bar>0.5 + 0.50005 - 1 :: real\<bar> \<le> 0.0001 \<and>
   fst (updateSplits (constructor initialState noConfig) 0.5 0.50005) = None \<and>
   total_value (fst (generateTick (snd (updateSplits (constructor initialState noConfig) 0.5 0.50005))
       date1 (1 / 2) (1 / 4))) = 100 \<and>
   \<bar>part1_value (fst (generateTick (snd (updateSplits (constructor initialState noConfig) 0.5 0.50005))
       date1 (1 / 2) (1 / 4)))
    + part2_value (fst (generateTick (snd (updateSplits (constructor initialState noConfig) 0.5 0.50005))
       date1 (1 / 2) (1 / 4)))
    - total_value (fst (generateTick (snd (updateSplits (constructor initialState noConfig) 0.5 0.50005))
       date1 (1 / 2) (1 / 4)))\<bar> > 0.000000001"
proof -
  let ?S = "constructor initialState noConfig"
  let ?S' = "snd (updateSplits ?S 0.5 0.50005)"
  let ?t = "fst (generateTick ?S' date1 (1 / 2) (1 / 4))"
  have a: "\<bar>0.5 + 0.50005 - 1 :: real\<bar> \<le> 0.0001" by simp
  have ok: "fst (updateSplits ?S 0.5 0.50005) = None"
    using a by (simp add: updateSplits_accept)
  have u: "?S' = ?S\<lparr>state := (state ?S)\<lparr>splits := \<lparr>part1 = 0.5, part2 = 0.50005\<rparr>\<rparr>\<rparr>"
    using a by (simp add: updateSplits_accept)
  have sp: "part1 (splits (state ?S')) = 0.5" "part2 (splits (state ?S')) = 0.50005"
    using a by (simp_all add: updateSplits_accept)
  have t: "total_value ?t = 100"
    by (simp only: u generateTick_example_quarter)
  have p: "part1_value ?t = 100 * 0.5" "part2_value ?t = 100 * 0.50005"
    using generateTick_parts [of ?S' date1 "1 / 2" "1 / 4"] by (simp_all only: t sp)
  have "\<bar>part1_value ?t + part2_value ?t - total_value ?t\<bar> > 0.000000001"
    unfolding p t by simp
  with a ok t show ?thesis by blast
qed

text \<open>
  C10. \<open>updateSplits\<close> checks the sum of the two weights and nothing else: whenever
  \<open>\<bar>w1 + w2 - 1\<bar> \<le> 0.0001\<close> the update succeeds and stores both weights, whatever their
  signs and sizes, and the next tick carries \<open>total_value * w1\<close> and \<open>total_value * w2\<close>, a
  negative part when the total is positive and the weight negative. So
  \<open>updateSplits(1.5, -0.5)\<close> is accepted, and the tick after it has a negative \<open>part2_value\<close>.
\<close>

theorem updateSplits_checks_sum_only:
  assumes "\<bar>w1 + w2 - 1\<bar> \<le> 0.0001"
  shows "fst (updateSplits sim w1 w2) = None \<and>
         splits (state (snd (updateSplits sim w1 w2))) = \<lparr>part1 = w1, part2 = w2\<rparr> \<and>
         part1_value (fst (generateTick (snd (updateSplits sim w1 w2)) now u1 u2))
           = total_value (fst (generateTick (snd (updateSplits sim w1 w2)) now u1 u2)) * w1 \<and>
         part2_value (fst (generateTick (snd (updateSplits sim w1 w2)) now u1 u2))
           = total_value (fst (generateTick (snd (updateSplits sim w1 w2)) now u1 u2)) * w2 \<and>
         (0 < total_value (fst (generateTick (snd (updateSplits sim w1 w2)) now u1 u2)) \<and> w2 < 0
            \<longrightarrow> part2_value (fst (generateTick (snd (updateSplits sim w1 w2)) now u1 u2)) < 0) \<and>
         (0 < total_value (fst (generateTick (snd (updateSplits sim w1 w2)) now u1 u2)) \<and> w1 < 0
            \<longrightarrow> part1_value (fst (generateTick (snd (updateSplits sim w1 w2)) now u1 u2)) < 0)"
proof -
  let ?sim' = "snd (updateSplits sim w1 w2)"
  let ?t = "fst (generateTick ?sim' now u1 u2)"
  have ok: "fst (updateSplits sim w1 w2) = None" using assms by (simp add: updateSplits_accept)
  have sp: "splits (state ?sim') = \<lparr>part1 = w1, part2 = w2\<rparr>"
    using assms by (simp add: updateSplits_accept)
  have p1: "part1_value ?t = total_value ?t * w1" and p2: "part2_value ?t = total_value ?t * w2"
    using generateTick_parts [of ?sim' now u1 u2] sp by simp_all
  have n2: "0 < total_value ?t \<and> w2 < 0 \<longrightarrow> part2_value ?t < 0"
    by (simp add: p2 mult_pos_neg)
  have n1: "0 < total_value ?t \<and> w1 < 0 \<longrightarrow> part1_value ?t < 0"
    by (simp add: p1 mult_pos_neg)
  from ok sp p1 p2 n2 n1 show ?thesis by blast
qed

theorem updateSplits_checks_sum_only_witness:
  "\<bar>1.5 + (- 0.5) - 1 :: real\<bar> \<le> 0.0001 \<and>
   fst (updateSplits (constructor initialState noConfig) 1.5 (- 0.5)) = None \<and>
   splits (state (snd (updateSplits (constructor initialState noConfig) 1.5 (- 0.5))))
     = \<lparr>part1 = 1.5, part2 = - 0.5\<rparr> \<and>
   total_value (fst (generateTick (snd (updateSplits (constructor initialState noConfig) 1.5 (- 0.5)))
       date1 (1 / 2) (1 / 4))) = 100 \<and>
   part2_value (fst (generateTick (snd (updateSplits (constructor initialState noConfig) 1.5 (- 0.5)))
       date1 (1 / 2) (1 / 4))) = - 50 \<and>
   part2_value (fst (generateTick (snd (updateSplits (constructor initialState noConfig) 1.5 (- 0.5)))
       date1 (1 / 2) (1 / 4))) < 0"
proof -
  let ?S = "constructor initialState noConfig"
  let ?S' = "snd (updateSplits ?S 1.5 (- 0.5))"
  let ?t = "fst (generateTick ?S' date1 (1 / 2) (1 / 4))"
  have a: "\<bar>1.5 + (- 0.5) - 1 :: real\<bar> \<le> 0.0001" by simp
  have u: "?S' = ?S\<lparr>state := (state ?S)\<lparr>splits := \<lparr>part1 = 1.5, part2 = - 0.5\<rparr>\<rparr>\<rparr>"
    using a by (simp add: updateSplits_accept)
  have t: "total_value ?t = 100"
    by (simp only: u generateTick_example_quarter)
  note th = updateSplits_checks_sum_only [OF a, of ?S date1 "1 / 2" "1 / 4"]
  have ok: "fst (updateSplits ?S 1.5 (- 0.5)) = None" using th by blast
  have sp: "splits (state ?S') = \<lparr>part1 = 1.5, part2 = - 0.5\<rparr>" using th by blast
  have "part2_value ?t = total_value ?t * (- 0.5)" using th by blast
  then have p2: "part2_value ?t = - 50" unfolding t by simp
  have "0 < total_value ?t \<and> (- 0.5 :: real) < 0" unfolding t by simp
  with th have n: "part2_value ?t < 0" by blast
  from a ok sp t p2 n show ?thesis by blast
qed

section \<open>The stream payload\<close>

lemma floor_half_close: "\<bar>of_int \<lfloor>a + 1 / 2 :: real\<rfloor> - a\<bar> \<le> 1 / 2"
  by linarith

lemma Number_toFixed_rounded:
  assumes "\<bar>x\<bar> < 10 ^ 21"
  shows "rounded_to_places d x (Number_toFixed x d)"
proof -
  let ?p = "(10::real) ^ d"
  let ?n = "\<lfloor>\<bar>x\<bar> * ?p + 1 / 2\<rfloor>"
  have pos: "0 < ?p" by simp
  have y: "Number_toFixed x d = sgn x * of_int ?n / ?p"
    using assms by (simp add: Number_toFixed_def)
  have scaled: "Number_toFixed x d * ?p = sgn x * of_int ?n"
    unfolding y using pos by simp
  have int: "of_int \<lfloor>Number_toFixed x d * ?p\<rfloor> = Number_toFixed x d * ?p"
  proof (cases "0 \<le> x")
    case True
    then have "sgn x * of_int ?n = (of_int (if x = 0 then 0 else ?n) :: real)"
      by (simp add: sgn_real_def)
    then show ?thesis unfolding scaled by (metis floor_of_int)
  next
    case False
    then have "sgn x * of_int ?n = (of_int (- ?n) :: real)"
      by (simp add: sgn_real_def)
    then show ?thesis unfolding scaled by (metis floor_of_int)
  qed
  have "x * ?p = sgn x * (\<bar>x\<bar> * ?p)"
    by (simp add: sgn_real_def)
  then have "Number_toFixed x d * ?p - x * ?p = sgn x * (of_int ?n - \<bar>x\<bar> * ?p)"
    unfolding scaled by (simp add: algebra_simps)
  then have "\<bar>Number_toFixed x d * ?p - x * ?p\<bar> = \<bar>sgn x\<bar> * \<bar>of_int ?n - \<bar>x\<bar> * ?p\<bar>"
    by (simp add: abs_mult)
  also have "\<dots> \<le> 1 * (1 / 2)"
    by (intro mult_mono floor_half_close) (simp_all add: sgn_real_def)
  finally have "\<bar>(Number_toFixed x d - x) * ?p\<bar> \<le> 1 / 2"
    by (simp add: algebra_simps)
  then have "\<bar>Number_toFixed x d - x\<bar> * ?p \<le> 1 / 2"
    using pos by (simp add: abs_mult)
  then have close: "\<bar>Number_toFixed x d - x\<bar> * (2 * ?p) \<le> 1"
    by simp
  from int close show ?thesis by (simp add: rounded_to_places_def)
qed

lemma offTarget_tick:
  "getCurrentTickData (constructor offTargetState noConfig) date1 =
     \<lparr>timestamp = ''2024-01-15T10:30:00.000Z'', total_value = (10000001 / 100000),
      part1_value = (6000000600 / 100000000), part2_value = (4000000400 / 100000000),
      tick_target = 100, tick_bounds = \<lparr>lower = 95, upper = 105\<rparr>,
      pct_from_target = Some (1 / 100000)\<rparr>"
  by (simp add: getCurrentTickData_def constructor_def updateBounds_def offTargetState_def
      initialState_def noConfig_def toISOString_date1 Let_def)

lemma toFixed4_small: "Number_toFixed (1 / 100000) 4 = 0"
  by (simp add: Number_toFixed_def)

text \<open>
  C9, as the code has it. In the tick event payload \<open>total_value\<close>, \<open>part1_value\<close>,
  \<open>part2_value\<close>, \<open>target\<close>, \<open>bounds.lower\<close> and \<open>bounds.upper\<close> are rounded to 8 decimal
  places, and \<open>pct_from_target\<close> is rounded to 4 decimal places (numbers below \<open>10^21\<close> in
  absolute value, where \<open>toFixed\<close> writes decimal digits).
\<close>

theorem stream_tick_rounding:
  assumes "\<bar>total_value t\<bar> < 10 ^ 21" and "\<bar>part1_value t\<bar> < 10 ^ 21"
    and "\<bar>part2_value t\<bar> < 10 ^ 21" and "\<bar>tick_target t\<bar> < 10 ^ 21"
    and "\<bar>lower (tick_bounds t)\<bar> < 10 ^ 21" and "\<bar>upper (tick_bounds t)\<bar> < 10 ^ 21"
    and "pct_from_target t = Some p" and "\<bar>p\<bar> < 10 ^ 21"
  shows "rounded_to_places 8 (total_value t) (s_total_value (formatTickForStream t n)) \<and>
         rounded_to_places 8 (part1_value t) (s_part1_value (formatTickForStream t n)) \<and>
         rounded_to_places 8 (part2_value t) (s_part2_value (formatTickForStream t n)) \<and>
         rounded_to_places 8 (tick_target t) (s_target (formatTickForStream t n)) \<and>
         rounded_to_places 8 (lower (tick_bounds t)) (lower (s_bounds (formatTickForStream t n))) \<and>
         rounded_to_places 8 (upper (tick_bounds t)) (upper (s_bounds (formatTickForStream t n))) \<and>
         s_pct_from_target (formatTickForStream t n) = Some (Number_toFixed p 4) \<and>
         rounded_to_places 4 p (Number_toFixed p 4)"
  using assms by (simp add: formatTickForStream_def Number_toFixed_rounded)

theorem stream_tick_rounding_witness:
  "rounded_to_places 8 (10000001 / 100000) (s_total_value (formatTickForStream
      (getCurrentTickData (constructor offTargetState noConfig) date1) 1)) \<and>
   s_pct_from_target (formatTickForStream
      (getCurrentTickData (constructor offTargetState noConfig) date1) 1) = Some 0 \<and>
   rounded_to_places 4 (1 / 100000) 0"
proof -
  let ?t = "getCurrentTickData (constructor offTargetState noConfig) date1"
  have h: "\<bar>total_value ?t\<bar> < 10 ^ 21" "\<bar>part1_value ?t\<bar> < 10 ^ 21"
    "\<bar>part2_value ?t\<bar> < 10 ^ 21" "\<bar>tick_target ?t\<bar> < 10 ^ 21"
    "\<bar>lower (tick_bounds ?t)\<bar> < 10 ^ 21" "\<bar>upper (tick_bounds ?t)\<bar> < 10 ^ 21"
    unfolding offTarget_tick by simp_all
  have p: "pct_from_target ?t = Some (1 / 100000)" unfolding offTarget_tick by simp
  have q: "\<bar>1 / 100000 :: real\<bar> < 10 ^ 21" by simp
  have tv: "total_value ?t = (10000001 / 100000)" unfolding offTarget_tick by simp
  note th = stream_tick_rounding [OF h p q, of 1]
  from th have 1: "rounded_to_places 8 (total_value ?t) (s_total_value (formatTickForStream ?t 1))"
    by blast
  from th have 2: "s_pct_from_target (formatTickForStream ?t 1) = Some (Number_toFixed (1 / 100000) 4)"
    by blast
  from th have 3: "rounded_to_places 4 (1 / 100000) (Number_toFixed (1 / 100000) 4)" by blast
  from 1 2 3 show ?thesis unfolding tv toFixed4_small by blast
qed

text \<open>
  The claim as written has \<open>pct_from_target\<close> rounded to 8 places too: the tick of the state
  at 100.00001 with target 100 has the percentage 0.00001, and the payload carries 0.
\<close>

theorem stream_pct_counterexample:
  "pct_from_target (getCurrentTickData (constructor offTargetState noConfig) date1) = Some (1 / 100000) \<and>
   s_pct_from_target (formatTickForStream
      (getCurrentTickData (constructor offTargetState noConfig) date1) 1) = Some 0 \<and>
   \<not> rounded_to_places 8 (1 / 100000) 0"
  unfolding offTarget_tick by (simp add: formatTickForStream_def toFixed4_small rounded_to_places_def)

section \<open>Run identities\<close>

lemma length_pad [simp]: "length (pad k n) = k"
  by (induction k arbitrary: n) simp_all

lemma digit_in_digits: "digit n \<in> set ''0123456789''"
proof -
  have "n mod 10 < length ''0123456789''" by simp
  then show ?thesis unfolding digit_def by (rule nth_mem)
qed

lemma pad_chars: "set (pad k n) \<subseteq> set ''0123456789''"
proof (induction k arbitrary: n)
  case 0
  then show ?case by simp
next
  case (Suc k)
  from Suc [of "n div 10"] digit_in_digits [of n] show ?case by simp
qed

lemma filter_pad [simp]:
  "filter (\<lambda>c. c \<noteq> CHR ''-'') (pad k n) = pad k n"
  "filter (\<lambda>c. c \<noteq> CHR '':'') (pad k n) = pad k n"
  using pad_chars [of k n] by (auto simp: filter_id_conv)

lemma digit_inj: "digit a = digit b \<Longrightarrow> a mod 10 = b mod 10"
proof -
  assume "digit a = digit b"
  moreover have "distinct ''0123456789''" by simp
  moreover have "a mod 10 < length ''0123456789''" "b mod 10 < length ''0123456789''" by simp_all
  ultimately show ?thesis unfolding digit_def by (simp only: nth_eq_iff_index_eq)
qed

lemma pad_inj:
  "n < 10 ^ k \<Longrightarrow> m < 10 ^ k \<Longrightarrow> pad k n = pad k m \<Longrightarrow> n = m"
proof (induction k arbitrary: n m)
  case 0
  then show ?case by simp
next
  case (Suc k)
  from Suc.prems have d: "pad k (n div 10) = pad k (m div 10)" and e: "digit n = digit m"
    by simp_all
  from Suc.prems have "n div 10 < 10 ^ k" "m div 10 < 10 ^ k"
    by (simp_all add: less_mult_imp_div_less mult.commute)
  with Suc.IH d have "n div 10 = m div 10" by blast
  moreover from e have "n mod 10 = m mod 10" by (rule digit_inj)
  ultimately show ?case by (metis div_mult_mod_eq)
qed

lemma hexdigit_inj: "hexdigit a = hexdigit b \<Longrightarrow> a mod 16 = b mod 16"
proof -
  assume "hexdigit a = hexdigit b"
  moreover have "distinct ''0123456789abcdef''" by simp
  moreover have "a mod 16 < length ''0123456789abcdef''" "b mod 16 < length ''0123456789abcdef''"
    by simp_all
  ultimately show ?thesis unfolding hexdigit_def by (simp only: nth_eq_iff_index_eq)
qed

lemma byte_hex_inj: "byte_hex a = byte_hex b \<Longrightarrow> a = b"
proof -
  assume h: "byte_hex a = byte_hex b"
  have la: "unat a < 256" and lb: "unat b < 256"
    using unsigned_less [of a] unsigned_less [of b] by simp_all
  from h have "(unat a div 16) mod 16 = (unat b div 16) mod 16" and m: "unat a mod 16 = unat b mod 16"
    by (auto simp: byte_hex_def dest: hexdigit_inj)
  with la lb have "unat a div 16 = unat b div 16" by simp
  with m have "unat a = unat b" by (metis div_mult_mod_eq)
  then show ?thesis by (simp add: word_unat_eq_iff)
qed

lemma length_byte_hex [simp]: "length (byte_hex b) = 2"
  by (simp add: byte_hex_def)

lemma toString_hex_inj:
  "length r1 = length r2 \<Longrightarrow> toString_hex r1 = toString_hex r2 \<Longrightarrow> r1 = r2"
proof (induction r1 r2 rule: list_induct2)
  case Nil
  then show ?case by simp
next
  case (Cons x xs y ys)
  from Cons.prems have "byte_hex x @ toString_hex xs = byte_hex y @ toString_hex ys"
    by (simp add: toString_hex_def)
  then have "byte_hex x = byte_hex y \<and> toString_hex xs = toString_hex ys"
    by simp
  with Cons.IH show ?case by (auto dest: byte_hex_inj)
qed

lemma generateRunId_layout:
  assumes "year d \<le> 9999"
  shows "generateRunId d r =
           (pad 4 (year d) @ pad 2 (month d) @ pad 2 (day d)) @ ''-'' @
           (pad 2 (hours d) @ pad 2 (minutes d) @ pad 2 (seconds d)) @ ''-'' @ toString_hex r"
  using assms by (simp add: generateRunId_def toISOString_def slice_def Let_def)

lemma runId1: "generateRunId date1 rnd1 = ''20240115-103000-deadbeef''"
  by code_simp

lemma runId1_later: "generateRunId date1_later rnd1 = ''20240115-103000-deadbeef''"
  by code_simp

text \<open>
  C8, as the code has it. The identity is the UTC date and the time of day to the second,
  and eight hexadecimal digits of four random bytes. Two invocations (clock readings in
  the years 0 to 9999) produce the same identity exactly when they fall in the same
  second and draw the same four bytes; they are distinct whenever the seconds differ or
  the random bytes differ.
\<close>

theorem runId_equal_iff:
  assumes "wf_date d1" and "wf_date d2" and "length r1 = 4" and "length r2 = 4"
  shows "generateRunId d1 r1 = generateRunId d2 r2 \<longleftrightarrow>
           year d1 = year d2 \<and> month d1 = month d2 \<and> day d1 = day d2 \<and>
           hours d1 = hours d2 \<and> minutes d1 = minutes d2 \<and> seconds d1 = seconds d2 \<and>
           r1 = r2"
proof -
  from assms(1,2) have y: "year d1 \<le> 9999" "year d2 \<le> 9999"
    by (simp_all add: wf_date_def)
  from assms have len: "length r1 = length r2" by simp
  from assms(1,2) have b:
    "year d1 < 10 ^ 4" "year d2 < 10 ^ 4" "month d1 < 10 ^ 2" "month d2 < 10 ^ 2"
    "day d1 < 10 ^ 2" "day d2 < 10 ^ 2" "hours d1 < 10 ^ 2" "hours d2 < 10 ^ 2"
    "minutes d1 < 10 ^ 2" "minutes d2 < 10 ^ 2" "seconds d1 < 10 ^ 2" "seconds d2 < 10 ^ 2"
    by (simp_all add: wf_date_def)
  have "generateRunId d1 r1 = generateRunId d2 r2 \<longleftrightarrow>
      pad 4 (year d1) = pad 4 (year d2) \<and> pad 2 (month d1) = pad 2 (month d2) \<and>
      pad 2 (day d1) = pad 2 (day d2) \<and> pad 2 (hours d1) = pad 2 (hours d2) \<and>
      pad 2 (minutes d1) = pad 2 (minutes d2) \<and> pad 2 (seconds d1) = pad 2 (seconds d2) \<and>
      toString_hex r1 = toString_hex r2"
    by (simp add: generateRunId_layout y)
  also have "\<dots> \<longleftrightarrow> year d1 = year d2 \<and> month d1 = month d2 \<and> day d1 = day d2 \<and>
      hours d1 = hours d2 \<and> minutes d1 = minutes d2 \<and> seconds d1 = seconds d2 \<and> r1 = r2"
    using pad_inj [OF b(1) b(2)] pad_inj [OF b(3) b(4)] pad_inj [OF b(5) b(6)]
      pad_inj [OF b(7) b(8)] pad_inj [OF b(9) b(10)] pad_inj [OF b(11) b(12)]
      toString_hex_inj [OF len]
    by auto
  finally show ?thesis .
qed

theorem runId_equal_iff_witness:
  "wf_date date1 \<and> wf_date date2 \<and> wf_date date1_later \<and> length rnd1 = 4 \<and> length rnd2 = 4 \<and>
   generateRunId date1 rnd1 \<noteq> generateRunId date2 rnd1 \<and>
   generateRunId date1 rnd1 \<noteq> generateRunId date1 rnd2 \<and>
   generateRunId date1 rnd1 = generateRunId date1_later rnd1"
proof -
  have w: "wf_date date1" "wf_date date2" "wf_date date1_later"
    by (simp_all add: wf_date_def date1_def date2_def date1_later_def)
  have l: "length rnd1 = 4" "length rnd2 = 4" by (simp_all add: rnd1_def rnd2_def)
  have s: "seconds date1 \<noteq> seconds date2" by (simp add: date1_def date2_def)
  have r: "rnd1 \<noteq> rnd2" by (simp add: rnd1_def rnd2_def)
  have f: "year date1 = year date1_later \<and> month date1 = month date1_later \<and>
    day date1 = day date1_later \<and> hours date1 = hours date1_later \<and>
    minutes date1 = minutes date1_later \<and> seconds date1 = seconds date1_later"
    by (simp add: date1_def date1_later_def)
  from runId_equal_iff [OF w(1) w(2) l(1) l(1)] s
  have 1: "generateRunId date1 rnd1 \<noteq> generateRunId date2 rnd1" by blast
  from runId_equal_iff [OF w(1) w(1) l(1) l(2)] r
  have 2: "generateRunId date1 rnd1 \<noteq> generateRunId date1 rnd2" by blast
  from runId_equal_iff [OF w(1) w(3) l(1) l(1)] f
  have 3: "generateRunId date1 rnd1 = generateRunId date1_later rnd1" by blast
  from w l 1 2 3 show ?thesis by blast
qed

text \<open>
  The claim as written guarantees distinct identities for every pair of invocations: two
  invocations half a second apart that draw the same bytes produce the same identity.
\<close>

theorem runId_collision_counterexample:
  "milliseconds date1 \<noteq> milliseconds date1_later \<and>
   generateRunId date1 rnd1 = generateRunId date1_later rnd1"
  by (simp add: runId1 runId1_later) (simp add: date1_def date1_later_def)

section \<open>OHLC aggregation\<close>

lemma fold_foldTick_Some:
  "fold (foldTick s e) ts (Some a) =
     Some (a\<lparr>high_value := fold max (map tick_value ts) (high_value a),
             low_value := fold min (map tick_value ts) (low_value a),
             close_value := last (close_value a # map tick_value ts),
             tick_count := tick_count a + length ts\<rparr>)"
  by (induction ts arbitrary: a) (simp_all add: foldTick_def max.commute min.commute)

lemma fold_foldTick_Cons:
  "fold (foldTick s e) (t # ts) None =
     Some \<lparr>bucket_start = s, bucket_end = e,
           open_value = tick_value t,
           high_value = Max (tick_value ` set (t # ts)),
           low_value = Min (tick_value ` set (t # ts)),
           close_value = tick_value (last (t # ts)),
           tick_count = length (t # ts)\<rparr>"
proof -
  have mx: "fold max (map tick_value ts) (tick_value t) = Max (tick_value ` set (t # ts))"
    using Max.set_eq_fold [of "tick_value t" "map tick_value ts"] by simp
  have mn: "fold min (map tick_value ts) (tick_value t) = Min (tick_value ` set (t # ts))"
    using Min.set_eq_fold [of "tick_value t" "map tick_value ts"] by simp
  have cl: "last (tick_value t # map tick_value ts) = tick_value (last (t # ts))"
    using last_map [of "t # ts" tick_value] by simp
  show ?thesis
    by (simp add: foldTick_def [of s e t None] fold_foldTick_Some mx mn cl del: last.simps)
qed

lemma aggregateBucket_empty:
  "inWindow s e ticks = [] \<Longrightarrow> aggregateBucket s e ticks = None"
  by (simp add: aggregateBucket_def)

lemma aggregateBucket_nonempty:
  assumes "inWindow s e ticks \<noteq> []"
  shows "aggregateBucket s e ticks =
     Some \<lparr>bucket_start = s, bucket_end = e,
           open_value = tick_value (hd (inWindow s e ticks)),
           high_value = Max (tick_value ` set (inWindow s e ticks)),
           low_value = Min (tick_value ` set (inWindow s e ticks)),
           close_value = tick_value (last (inWindow s e ticks)),
           tick_count = length (inWindow s e ticks)\<rparr>"
proof -
  from assms obtain t ts where w: "inWindow s e ticks = t # ts"
    by (cases "inWindow s e ticks") auto
  show ?thesis
    unfolding aggregateBucket_def w fold_foldTick_Cons by simp
qed

lemma inWindow_mset:
  assumes "mset ticks' = mset ticks"
  shows "set (inWindow s e ticks') = set (inWindow s e ticks)"
    and "length (inWindow s e ticks') = length (inWindow s e ticks)"
proof -
  from assms have m: "mset (inWindow s e ticks') = mset (inWindow s e ticks)"
    by (simp add: inWindow_def)
  from m show "set (inWindow s e ticks') = set (inWindow s e ticks)" by (rule mset_eq_setD)
  from m show "length (inWindow s e ticks') = length (inWindow s e ticks)" by (rule mset_eq_length)
qed

lemma aggregateBucket_reorder:
  assumes "mset ticks' = mset ticks"
  shows "map_option high_value (aggregateBucket s e ticks') = map_option high_value (aggregateBucket s e ticks)"
    and "map_option low_value (aggregateBucket s e ticks') = map_option low_value (aggregateBucket s e ticks)"
    and "map_option tick_count (aggregateBucket s e ticks') = map_option tick_count (aggregateBucket s e ticks)"
proof -
  note eq = inWindow_mset [OF assms, of s e]
  have e: "inWindow s e ticks' = [] \<longleftrightarrow> inWindow s e ticks = []"
    using eq(2) by (metis length_0_conv)
  show "map_option high_value (aggregateBucket s e ticks') = map_option high_value (aggregateBucket s e ticks)"
    using e eq by (cases "inWindow s e ticks = []") (simp_all add: aggregateBucket_empty aggregateBucket_nonempty)
  show "map_option low_value (aggregateBucket s e ticks') = map_option low_value (aggregateBucket s e ticks)"
    using e eq by (cases "inWindow s e ticks = []") (simp_all add: aggregateBucket_empty aggregateBucket_nonempty)
  show "map_option tick_count (aggregateBucket s e ticks') = map_option tick_count (aggregateBucket s e ticks)"
    using e eq by (cases "inWindow s e ticks = []") (simp_all add: aggregateBucket_empty aggregateBucket_nonempty)
qed

lemma agg_AB: "inWindow 0 60000 [tickA, tickB, tickC] = [tickA, tickB]"
  by (simp add: inWindow_def tickA_def tickB_def tickC_def)

lemma agg_C: "inWindow 0 60000 [tickC] = []"
  by (simp add: inWindow_def tickC_def)

text \<open>
  C7. Aggregation of a bucket is a fold over the ticks of its half-open window: no tick
  in the window, no bucket; otherwise open is the value of the first tick, close of the
  last, high the maximum, low the minimum and \<open>tick_count\<close> the number of ticks. The
  result depends on the ticks of the window only, so aggregating the same ticks again
  gives the same bucket; reordering the input leaves high, low and \<open>tick_count\<close> as they
  are, and can change open and close, as exchanging two ticks of different value does.
\<close>

theorem ohlc_aggregation:
  "(inWindow s e ticks = [] \<longrightarrow> aggregateBucket s e ticks = None) \<and>
   (inWindow s e ticks \<noteq> [] \<longrightarrow>
      aggregateBucket s e ticks =
        Some \<lparr>bucket_start = s, bucket_end = e,
              open_value = tick_value (hd (inWindow s e ticks)),
              high_value = Max (tick_value ` set (inWindow s e ticks)),
              low_value = Min (tick_value ` set (inWindow s e ticks)),
              close_value = tick_value (last (inWindow s e ticks)),
              tick_count = length (inWindow s e ticks)\<rparr>) \<and>
   aggregateBucket s e ticks = fold (foldTick s e) (inWindow s e ticks) None \<and>
   (inWindow s e ticks' = inWindow s e ticks \<longrightarrow>
      aggregateBucket s e ticks' = aggregateBucket s e ticks) \<and>
   (mset ticks' = mset ticks \<longrightarrow>
      map_option high_value (aggregateBucket s e ticks')
        = map_option high_value (aggregateBucket s e ticks) \<and>
      map_option low_value (aggregateBucket s e ticks')
        = map_option low_value (aggregateBucket s e ticks) \<and>
      map_option tick_count (aggregateBucket s e ticks')
        = map_option tick_count (aggregateBucket s e ticks)) \<and>
   mset [tickB, tickA] = mset [tickA, tickB] \<and>
   map_option open_value (aggregateBucket 0 60000 [tickB, tickA])
     \<noteq> map_option open_value (aggregateBucket 0 60000 [tickA, tickB]) \<and>
   map_option close_value (aggregateBucket 0 60000 [tickB, tickA])
     \<noteq> map_option close_value (aggregateBucket 0 60000 [tickA, tickB])"
proof -
  have 1: "inWindow s e ticks = [] \<longrightarrow> aggregateBucket s e ticks = None"
    by (simp add: aggregateBucket_empty)
  have 2: "inWindow s e ticks \<noteq> [] \<longrightarrow>
      aggregateBucket s e ticks =
        Some \<lparr>bucket_start = s, bucket_end = e,
              open_value = tick_value (hd (inWindow s e ticks)),
              high_value = Max (tick_value ` set (inWindow s e ticks)),
              low_value = Min (tick_value ` set (inWindow s e ticks)),
              close_value = tick_value (last (inWindow s e ticks)),
              tick_count = length (inWindow s e ticks)\<rparr>"
    using aggregateBucket_nonempty [of s e ticks] by blast
  have 3: "aggregateBucket s e ticks = fold (foldTick s e) (inWindow s e ticks) None"
    by (simp add: aggregateBucket_def)
  have 4: "inWindow s e ticks' = inWindow s e ticks \<longrightarrow>
      aggregateBucket s e ticks' = aggregateBucket s e ticks"
    by (simp add: aggregateBucket_def)
  have 5: "mset ticks' = mset ticks \<longrightarrow>
      map_option high_value (aggregateBucket s e ticks')
        = map_option high_value (aggregateBucket s e ticks) \<and>
      map_option low_value (aggregateBucket s e ticks')
        = map_option low_value (aggregateBucket s e ticks) \<and>
      map_option tick_count (aggregateBucket s e ticks')
        = map_option tick_count (aggregateBucket s e ticks)"
    using aggregateBucket_reorder [of ticks' ticks s e] by blast
  have 6: "mset [tickB, tickA] = mset [tickA, tickB]" by (simp add: add.commute)
  have w: "inWindow 0 60000 [tickA, tickB] = [tickA, tickB]"
    "inWindow 0 60000 [tickB, tickA] = [tickB, tickA]"
    by (simp_all add: inWindow_def tickA_def tickB_def)
  have 7: "map_option open_value (aggregateBucket 0 60000 [tickB, tickA])
     \<noteq> map_option open_value (aggregateBucket 0 60000 [tickA, tickB])"
    by (simp add: aggregateBucket_nonempty w) (simp add: tickA_def tickB_def)
  have 8: "map_option close_value (aggregateBucket 0 60000 [tickB, tickA])
     \<noteq> map_option close_value (aggregateBucket 0 60000 [tickA, tickB])"
    by (simp add: aggregateBucket_nonempty w) (simp add: tickA_def tickB_def)
  from 1 2 3 4 5 6 7 8 show ?thesis by blast
qed

theorem ohlc_aggregation_witness:
  "inWindow 0 60000 [tickC] = [] \<and> aggregateBucket 0 60000 [tickC] = None \<and>
   inWindow 0 60000 [tickA, tickB, tickC] \<noteq> [] \<and>
   aggregateBucket 0 60000 [tickA, tickB, tickC] =
     Some \<lparr>bucket_start = 0, bucket_end = 60000, open_value = 100, high_value = 101,
           low_value = 100, close_value = 101, tick_count = 2\<rparr> \<and>
   mset [tickB, tickC, tickA] = mset [tickA, tickB, tickC] \<and>
   map_option high_value (aggregateBucket 0 60000 [tickB, tickC, tickA]) = Some 101 \<and>
   map_option low_value (aggregateBucket 0 60000 [tickB, tickC, tickA]) = Some 100 \<and>
   map_option tick_count (aggregateBucket 0 60000 [tickB, tickC, tickA]) = Some 2"
proof -
  note c = ohlc_aggregation [of 0 60000 "[tickC]" "[tickC]"]
  note ab = ohlc_aggregation [of 0 60000 "[tickA, tickB, tickC]" "[tickB, tickC, tickA]"]
  have m: "mset [tickB, tickC, tickA] = mset [tickA, tickB, tickC]" by (simp add: ac_simps)
  have ne: "inWindow 0 60000 [tickA, tickB, tickC] \<noteq> []" by (simp add: agg_AB)
  from c agg_C have 1: "aggregateBucket 0 60000 [tickC] = None" by blast
  from ab ne have "aggregateBucket 0 60000 [tickA, tickB, tickC] =
        Some \<lparr>bucket_start = 0, bucket_end = 60000,
              open_value = tick_value (hd (inWindow 0 60000 [tickA, tickB, tickC])),
              high_value = Max (tick_value ` set (inWindow 0 60000 [tickA, tickB, tickC])),
              low_value = Min (tick_value ` set (inWindow 0 60000 [tickA, tickB, tickC])),
              close_value = tick_value (last (inWindow 0 60000 [tickA, tickB, tickC])),
              tick_count = length (inWindow 0 60000 [tickA, tickB, tickC])\<rparr>"
    by blast
  then have 2: "aggregateBucket 0 60000 [tickA, tickB, tickC] =
     Some \<lparr>bucket_start = 0, bucket_end = 60000, open_value = 100, high_value = 101,
           low_value = 100, close_value = 101, tick_count = 2\<rparr>"
    unfolding agg_AB by (simp add: tickA_def tickB_def)
  from ab m have 3:
    "map_option high_value (aggregateBucket 0 60000 [tickB, tickC, tickA])
        = map_option high_value (aggregateBucket 0 60000 [tickA, tickB, tickC])"
    "map_option low_value (aggregateBucket 0 60000 [tickB, tickC, tickA])
        = map_option low_value (aggregateBucket 0 60000 [tickA, tickB, tickC])"
    "map_option tick_count (aggregateBucket 0 60000 [tickB, tickC, tickA])
        = map_option tick_count (aggregateBucket 0 60000 [tickA, tickB, tickC])"
    by blast+
  from agg_C 1 ne 2 m 3 show ?thesis by simp
qed

end
